theory Spec2Isabelle
  imports Complex_Main "HOL-Library.Char_ord" "HOL-Library.List_Lexorder"
    "HOL-Library.Product_Lexorder" "HOL-Library.Log_Nat"
begin

section \<open>The transaction aggregation engine of app.py\<close>

text \<open>
  The development embeds the loader (\<open>load_data\<close>, \<open>safe_float\<close>) and the six query
  functions of \<open>app.py\<close>. The pandas calls are modelled by what they do on the frames
  this program builds:
  \<^item> text is a list of code points below 256 (\<open>char\<close>);
  \<^item> a float is the binary64 number nearest to the decimal (ties to even, infinite on
    overflow), kept as a rational; the sign of a zero is not kept;
  \<^item> instants and durations are 64-bit counts of nanoseconds: an operation whose result
    does not fit raises, as pandas does;
  \<^item> what \<open>pandas.to_datetime\<close> makes of a column (it may raise, and the column may
    carry a time zone), the clock, the stored flag of a digit run longer than 15 digits
    and the order that the unstable sort of \<open>sort_values\<close> leaves among equal counts
    in a frame of more than 16 entries are parameters (\<open>env\<close>); up to 16 entries the
    sort is an insertion sort, which is stable.
\<close>

subsection \<open>Text helpers\<close>

definition digit_table :: "(char \<times> nat) list" where
  "digit_table =
     [(CHR ''0'', 0), (CHR ''1'', 1), (CHR ''2'', 2), (CHR ''3'', 3), (CHR ''4'', 4),
      (CHR ''5'', 5), (CHR ''6'', 6), (CHR ''7'', 7), (CHR ''8'', 8), (CHR ''9'', 9)]"

definition digit_of :: "char \<Rightarrow> nat option" where
  "digit_of c = map_of digit_table c"

definition is_digit :: "char \<Rightarrow> bool" where
  "is_digit c = (digit_of c \<noteq> None)"

text \<open>The decimal value of a run of digits; an underscore (allowed by \<open>float\<close>) is skipped.\<close>

definition digits_val :: "string \<Rightarrow> nat" where
  "digits_val s = foldl (\<lambda>a c. case digit_of c of Some d \<Rightarrow> 10 * a + d | None \<Rightarrow> a) 0 s"

text \<open>\<open>str.isspace\<close> on the code points below 256.\<close>

definition py_isspace :: "char \<Rightarrow> bool" where
  "py_isspace c = (c \<in> set [CHR 0x09, CHR 0x0A, CHR 0x0B, CHR 0x0C, CHR 0x0D,
     CHR 0x1C, CHR 0x1D, CHR 0x1E, CHR 0x1F, CHR 0x20, CHR 0x85, CHR 0xA0])"

definition strip :: "string \<Rightarrow> string" where
  "strip s = rev (dropWhile py_isspace (rev (dropWhile py_isspace s)))"

definition replace_comma :: "string \<Rightarrow> string" where
  "replace_comma s = map (\<lambda>c. if c = CHR '','' then CHR ''.'' else c) s"

subsection \<open>Python's \<open>float\<close> on text\<close>

datatype error = ValueError | KeyError string | TypeError | OverflowError
  | OutOfBoundsTimedelta | OutOfBoundsDatetime | IntCastingNaNError

datatype pyfloat = Finite rat | PInf | NInf | NaN

text \<open>\<open>digitpart ::= digit (["_"] digit)*\<close>\<close>

fun digitpart :: "string \<Rightarrow> bool" where
  "digitpart [] = False"
| "digitpart [c] = is_digit c"
| "digitpart (c # d # cs) =
     (is_digit c \<and> (if d = CHR ''_'' then digitpart cs else digitpart (d # cs)))"

text \<open>\<open>number ::= [digitpart] "." digitpart | digitpart ["."]\<close>\<close>

definition number_ok :: "string \<Rightarrow> bool" where
  "number_ok m =
     (let ip = takeWhile (\<lambda>c. c \<noteq> CHR ''.'') m; r = dropWhile (\<lambda>c. c \<noteq> CHR ''.'') m
      in if r = [] then digitpart ip
         else (digitpart ip \<and> (tl r = [] \<or> digitpart (tl r))) \<or> (ip = [] \<and> digitpart (tl r)))"

definition number_val :: "string \<Rightarrow> rat" where
  "number_val m =
     (let ip = takeWhile (\<lambda>c. c \<noteq> CHR ''.'') m; fp = dropWhile (\<lambda>c. c \<noteq> CHR ''.'') m
      in of_nat (digits_val ip) + of_nat (digits_val fp) / 10 ^ length (filter is_digit fp))"

definition is_sign :: "char \<Rightarrow> bool" where
  "is_sign c = (c = CHR ''+'' \<or> c = CHR ''-'')"

definition unsign :: "string \<Rightarrow> string" where
  "unsign s = (case s of [] \<Rightarrow> [] | c # cs \<Rightarrow> if is_sign c then cs else s)"

definition negative :: "string \<Rightarrow> bool" where
  "negative s = (case s of [] \<Rightarrow> False | c # cs \<Rightarrow> c = CHR ''-'')"

definition is_e :: "char \<Rightarrow> bool" where
  "is_e c = (c = CHR ''e'' \<or> c = CHR ''E'')"

text \<open>\<open>exponent ::= ("e" | "E") [sign] digitpart\<close>; the text is what follows the mantissa.\<close>

definition exponent_ok :: "string \<Rightarrow> bool" where
  "exponent_ok x = (case x of [] \<Rightarrow> True | c # cs \<Rightarrow> digitpart (unsign cs))"

definition exponent_val :: "string \<Rightarrow> int" where
  "exponent_val x =
     (case x of [] \<Rightarrow> 0
      | c # cs \<Rightarrow> (if negative cs then - int (digits_val cs) else int (digits_val cs)))"

definition scale10 :: "rat \<Rightarrow> int \<Rightarrow> rat" where
  "scale10 q e = (if 0 \<le> e then q * 10 ^ nat e else q / 10 ^ nat (- e))"

text \<open>The letters of \<open>inf\<close>, \<open>infinity\<close> and \<open>nan\<close>, which \<open>float\<close> reads in either case.\<close>

fun upper_of :: "char \<Rightarrow> char" where
  "upper_of c =
     (if c = CHR ''a'' then CHR ''A'' else if c = CHR ''f'' then CHR ''F''
      else if c = CHR ''i'' then CHR ''I'' else if c = CHR ''n'' then CHR ''N''
      else if c = CHR ''t'' then CHR ''T'' else if c = CHR ''y'' then CHR ''Y'' else c)"

definition ci_eq :: "string \<Rightarrow> string \<Rightarrow> bool" where
  "ci_eq s p = list_all2 (\<lambda>c l. c = l \<or> c = upper_of l) s p"

subsection \<open>Rounding to binary64\<close>

definition round_half_even :: "rat \<Rightarrow> int" where
  "round_half_even x =
     (let f = \<lfloor>x\<rfloor>; d = x - of_int f
      in if d < 1 / 2 then f else if 1 / 2 < d then f + 1 else if even f then f else f + 1)"

text \<open>For a positive \<open>x\<close>, the integer \<open>e\<close> with \<open>2 ^ e \<le> x < 2 ^ (e + 1)\<close>.\<close>

definition ilog2 :: "rat \<Rightarrow> int" where
  "ilog2 x = (if 1 \<le> x then bitlen \<lfloor>x\<rfloor> - 1 else - bitlen (\<lceil>1 / x\<rceil> - 1))"

text \<open>
  The binary64 number nearest to \<open>x\<close>, ties to even, with an unbounded exponent
  upwards: 53 significant bits, and multiples of \<open>2 ^ -1074\<close> below \<open>2 ^ -1022\<close>.
\<close>

definition fl64 :: "rat \<Rightarrow> rat" where
  "fl64 x =
     (if x = 0 then 0
      else (let q = power_int 2 (max (ilog2 \<bar>x\<bar>) (- 1022) - 52)
            in sgn x * of_int (round_half_even (\<bar>x\<bar> / q)) * q))"

text \<open>
  The float a decimal is read as: rounded, and infinite when the rounded number
  reaches \<open>2 ^ 1024\<close>.
\<close>

definition to_float :: "rat \<Rightarrow> pyfloat" where
  "to_float x =
     (let y = fl64 x
      in if y \<noteq> 0 \<and> 1024 \<le> ilog2 \<bar>y\<bar> then (if 0 < x then PInf else NInf)
         else Finite y)"

text \<open>
  \<open>float(s)\<close>: surrounding whitespace is ignored, then
  \<open>[sign] (number [exponent] | inf | infinity | nan)\<close>; anything else raises ValueError.
\<close>

definition py_float :: "string \<Rightarrow> error + pyfloat" where
  "py_float s0 =
     (let s = strip s0; neg = negative s; a = unsign s;
          m = takeWhile (\<lambda>c. \<not> is_e c) a; x = dropWhile (\<lambda>c. \<not> is_e c) a
      in if ci_eq a ''inf'' \<or> ci_eq a ''infinity'' then Inr (if neg then NInf else PInf)
         else if ci_eq a ''nan'' then Inr NaN
         else if number_ok m \<and> exponent_ok x
           then Inr (to_float (scale10 (if neg then - number_val m else number_val m)
                                 (exponent_val x)))
         else Inl ValueError)"

subsection \<open>\<open>safe_float\<close>\<close>

text \<open>
  \<open>
  def safe_float(x):
      if x is None: return None
      try:
          s = str(x).strip().replace(',', '.')
          return float(s)
      except Exception:
          return None
  \<close>
\<close>

definition safe_float :: "string option \<Rightarrow> pyfloat option" where
  "safe_float x =
     (case x of None \<Rightarrow> None
      | Some t \<Rightarrow> (case py_float (replace_comma (strip t)) of
                    Inl e \<Rightarrow> None
                  | Inr v \<Rightarrow> Some v))"

subsection \<open>Errors in sequence\<close>

text \<open>The first statement that raises ends the function: the rest is not run.\<close>

definition and_then :: "error + 'a \<Rightarrow> ('a \<Rightarrow> error + 'b) \<Rightarrow> error + 'b" where
  "and_then m k = (case m of Inl err \<Rightarrow> Inl err | Inr v \<Rightarrow> k v)"

fun collect :: "(error + 'a) list \<Rightarrow> error + 'a list" where
  "collect [] = Inr []"
| "collect (x # xs) = and_then x (\<lambda>v. and_then (collect xs) (\<lambda>vs. Inr (v # vs)))"

subsection \<open>Files, frames and the environment\<close>

record raw_frame =
  columns :: "string list"
  rows :: "string list list"

text \<open>
  What \<open>os.path.isfile\<close> and \<open>pd.read_csv(CSV_PATH, dtype=str, keep_default_na=False)\<close>
  find: no file, a file that \<open>read_csv\<close> rejects, or a header and rows of text cells.
\<close>

datatype csv_file = Absent | Unreadable | Parsed raw_frame

text \<open>
  A column of instants as \<open>pd.to_datetime(col, errors='coerce')\<close> returns it: whether it
  carries a time zone, and the instant of each text (nanoseconds since the epoch, None
  for NaT).
\<close>

record parsed_column =
  aware :: bool
  instants :: "string \<Rightarrow> int option"

text \<open>
  The library and the clock.
  \<^item> \<open>to_datetime e col\<close> is what \<open>pd.to_datetime(col, errors='coerce')\<close> does on the
    column \<open>col\<close>: it raises or returns a column of instants.
  \<^item> \<open>long_flag e col ds\<close> is what \<open>pd.to_numeric(...).fillna(0).astype(int)\<close> stores for
    a run \<open>ds\<close> of more than 15 digits in the column \<open>col\<close>: the column is converted
    through int64, uint64 or float64 according to all its cells, so the run may wrap or
    be rounded, and the cast raises when the float is not finite.
  \<^item> \<open>tie_rank e counts i\<close> ranks position \<open>i\<close> among the positions of equal count in
    the order that the unstable sort leaves for the counts \<open>counts\<close>.
  \<^item> \<open>load_now\<close> and \<open>query_now\<close> are the values of \<open>pd.Timestamp.now()\<close> in
    \<open>load_data\<close> and in the query that called it.
\<close>

record env =
  to_datetime :: "string list \<Rightarrow> error + parsed_column"
  long_flag :: "string list \<Rightarrow> string \<Rightarrow> error + int"
  tie_rank :: "nat list \<Rightarrow> nat \<Rightarrow> nat"
  load_now :: int
  query_now :: int

text \<open>
  A row after \<open>load_data\<close>: the cells that are still text, by column name, and the
  derived fields.
\<close>

record nrow =
  cells :: "(string \<times> string) list"
  is_fraud :: int
  local_timestamp :: "int option"
  age :: "int option"
  merch_lat_f :: "pyfloat option"
  merch_long_f :: "pyfloat option"

text \<open>The frame after \<open>load_data\<close>; \<open>ts_aware\<close>: the instants carry a time zone.\<close>

record dataframe =
  df_columns :: "string list"
  df_rows :: "nrow list"
  ts_aware :: bool

definition EXPECTED_COLS :: "string list" where
  "EXPECTED_COLS =
     [''transaction_id'', ''ssn'', ''cc_num'', ''first_name'', ''last_name'', ''gender'',
      ''street'', ''city'', ''state'', ''zip'', ''home_lat'', ''home_long'', ''city_population'',
      ''job'', ''dob'', ''account_number'', ''trans_num'', ''trans_date'', ''trans_time'',
      ''unix_time'', ''category'', ''amt'', ''merchant'', ''merch_lat'', ''merch_long'',
      ''is_fraud'', ''local_timestamp'']"

text \<open>\<open>pd.DataFrame()\<close>\<close>

definition empty_frame :: dataframe where
  "empty_frame = \<lparr>df_columns = [], df_rows = [], ts_aware = False\<rparr>"

text \<open>\<open>df.empty\<close>: some axis has length 0.\<close>

definition empty :: "dataframe \<Rightarrow> bool" where
  "empty df = (df_columns df = [] \<or> df_rows df = [])"

text \<open>
  \<open>if 'local_timestamp' not in df.columns and len(df.columns) == len(EXPECTED_COLS):
      df.columns = EXPECTED_COLS\<close>
\<close>

definition realign :: "string list \<Rightarrow> string list" where
  "realign cols =
     (if ''local_timestamp'' \<notin> set cols \<and> length cols = length EXPECTED_COLS
      then EXPECTED_COLS else cols)"

text \<open>
  The cell of a row under a column name. Frames from \<open>read_csv\<close> are rectangular and
  their column names are distinct, so the name of a column always finds its cell.
\<close>

definition cell :: "string list \<Rightarrow> string list \<Rightarrow> string \<Rightarrow> string" where
  "cell cols r c = (case map_of (zip cols r) c of Some s \<Rightarrow> s | None \<Rightarrow> [])"

definition column :: "string list \<Rightarrow> string list list \<Rightarrow> string \<Rightarrow> string list" where
  "column cols rs c = map (\<lambda>r. cell cols r c) rs"

text \<open>\<open>df[name] = ...\<close> on a frame: a new name is appended, a known one keeps its place.\<close>

definition add_col :: "string \<Rightarrow> string list \<Rightarrow> string list" where
  "add_col c cols = (if c \<in> set cols then cols else cols @ [c])"

text \<open>
  The columns that \<open>load_data\<close> assigns: they hold derived values, no longer the text
  of the file.
\<close>

definition derived_cols :: "string list" where
  "derived_cols = [''is_fraud'', ''local_timestamp'', ''dob'', ''age'', ''merch_lat_f'',
     ''merch_long_f'']"

definition text_cells :: "string list \<Rightarrow> string list \<Rightarrow> (string \<times> string) list" where
  "text_cells cols r = filter (\<lambda>p. fst p \<notin> set derived_cols) (zip cols r)"

subsection \<open>The normalised \<open>is_fraud\<close> field\<close>

text \<open>
  \<open>pd.to_numeric(df['is_fraud'].astype(str).str.extract(r'(\d+)')[0],
  errors='coerce').fillna(0).astype(int)\<close>:
  the first run of digits of the text, read as a number; 0 when there is none. A run
  of at most 15 digits is below \<open>2 ^ 53\<close> and is stored as it is written, whichever of
  int64, uint64 and float64 the column goes through; a longer run is the library's.
\<close>

definition extract_digits :: "string \<Rightarrow> string option" where
  "extract_digits s =
     (let r = dropWhile (\<lambda>c. \<not> is_digit c) s
      in if r = [] then None else Some (takeWhile is_digit r))"

definition fraud_flag :: "env \<Rightarrow> string list \<Rightarrow> string \<Rightarrow> error + int" where
  "fraud_flag e col s =
     (case extract_digits s of
        None \<Rightarrow> Inr 0
      | Some ds \<Rightarrow> if length ds \<le> 15 then Inr (int (digits_val ds)) else long_flag e col ds)"

subsection \<open>\<open>load_data\<close>\<close>

definition day_ns :: int where
  "day_ns = 86400 * 1000000000"

text \<open>A count of nanoseconds that an instant or a duration can hold.\<close>

definition in_int64 :: "int \<Rightarrow> bool" where
  "in_int64 x = (- (2 ^ 63) < x \<and> x < 2 ^ 63)"

text \<open>\<open>to_datetime(None)\<close> is None: without the column every instant is null.\<close>

definition no_column :: parsed_column where
  "no_column = \<lparr>aware = False, instants = (\<lambda>s. None)\<rparr>"

text \<open>
  \<open>df['age'] = (pd.Timestamp.now() - df['dob']).dt.days // 365\<close>: the zone-less clock
  reading minus a column with a time zone raises TypeError, a difference that does not
  fit 64 bits raises an overflow error, and NaT gives NaN.
\<close>

definition ages :: "env \<Rightarrow> parsed_column \<Rightarrow> string list \<Rightarrow> error + int option list" where
  "ages e pc col =
     (if aware pc then Inl TypeError
      else if list_ex (\<lambda>s. case instants pc s of None \<Rightarrow> False
                             | Some d \<Rightarrow> \<not> in_int64 (load_now e - d)) col
        then Inl OverflowError
      else Inr (map (\<lambda>s. map_option (\<lambda>d. ((load_now e - d) div day_ns) div 365)
                            (instants pc s)) col))"

definition build_row ::
  "string list \<Rightarrow> parsed_column \<Rightarrow> string list \<Rightarrow> int \<Rightarrow> int option \<Rightarrow> nrow" where
  "build_row cols ts r flag a =
     \<lparr>cells = text_cells cols r,
      is_fraud = flag,
      local_timestamp = instants ts (cell cols r ''local_timestamp''),
      age = a,
      merch_lat_f =
        (if ''merch_lat'' \<in> set cols then safe_float (Some (cell cols r ''merch_lat'')) else None),
      merch_long_f =
        (if ''merch_long'' \<in> set cols then safe_float (Some (cell cols r ''merch_long''))
         else None)\<rparr>"

text \<open>
  \<open>
  def load_data():
      if not os.path.isfile(CSV_PATH): return pd.DataFrame()
      try: df = pd.read_csv(CSV_PATH, dtype=str, keep_default_na=False)
      except Exception: return pd.DataFrame()
      if 'local_timestamp' not in df.columns and len(df.columns) == len(EXPECTED_COLS):
          df.columns = EXPECTED_COLS
      if 'is_fraud' in df.columns:
          df['is_fraud'] = pd.to_numeric(..., errors='coerce').fillna(0).astype(int)
      else: df['is_fraud'] = 0
      df['local_timestamp'] = pd.to_datetime(df.get('local_timestamp'), errors='coerce')
      if 'dob' in df.columns:
          df['dob'] = pd.to_datetime(df['dob'], errors='coerce')
          df['age'] = (pd.Timestamp.now() - df['dob']).dt.days // 365
      else: df['age'] = None
      df['merch_lat_f'] = df['merch_lat'].apply(safe_float) if 'merch_lat' in df.columns else None
      df['merch_long_f'] = df['merch_long'].apply(safe_float) if 'merch_long' in df.columns else None
      return df
  \<close>
  Only \<open>read_csv\<close> is inside a \<open>try\<close>: an error of a later line leaves \<open>load_data\<close>.
\<close>

definition load_data :: "env \<Rightarrow> csv_file \<Rightarrow> error + dataframe" where
  "load_data e f =
     (case f of
        Absent \<Rightarrow> Inr empty_frame
      | Unreadable \<Rightarrow> Inr empty_frame
      | Parsed fr \<Rightarrow>
          (let cols = realign (columns fr); rs = rows fr
           in and_then
                (if ''is_fraud'' \<in> set cols
                 then collect (map (fraud_flag e (column cols rs ''is_fraud''))
                                 (column cols rs ''is_fraud''))
                 else Inr (map (\<lambda>r. 0) rs))
                (\<lambda>flags. and_then
                   (if ''local_timestamp'' \<in> set cols
                    then to_datetime e (column cols rs ''local_timestamp'')
                    else Inr no_column)
                   (\<lambda>ts. and_then
                      (if ''dob'' \<in> set cols
                       then and_then (to_datetime e (column cols rs ''dob''))
                              (\<lambda>pc. ages e pc (column cols rs ''dob''))
                       else Inr (map (\<lambda>r. None) rs))
                      (\<lambda>ags. Inr
                         \<lparr>df_columns =
                            add_col ''merch_long_f'' (add_col ''merch_lat_f'' (add_col ''age''
                              (add_col ''local_timestamp'' (add_col ''is_fraud'' cols)))),
                          df_rows = map (\<lambda>(r, flag, a). build_row cols ts r flag a)
                                      (zip rs (zip flags ags)),
                          ts_aware = aware ts\<rparr>)))))"

subsection \<open>The six queries\<close>

definition hour_ns :: int where
  "hour_ns = 3600 * 1000000000"

definition minute_ns :: int where
  "minute_ns = 60 * 1000000000"

text \<open>\<open>pd.Timedelta(...)\<close>: a duration that does not fit 64 bits of nanoseconds raises.\<close>

definition timedelta :: "int \<Rightarrow> error + int" where
  "timedelta ns = (if in_int64 ns then Inr ns else Inl OutOfBoundsTimedelta)"

text \<open>\<open>pd.Timestamp.now() - td\<close>: an instant that does not fit raises.\<close>

definition minus_timedelta :: "int \<Rightarrow> int \<Rightarrow> error + int" where
  "minus_timedelta now td =
     (if in_int64 (now - td) then Inr (now - td) else Inl OutOfBoundsDatetime)"

text \<open>\<open>local_timestamp >= cutoff\<close> on one row: a null instant compares False.\<close>

definition since :: "int \<Rightarrow> nrow \<Rightarrow> bool" where
  "since cutoff r = (case local_timestamp r of None \<Rightarrow> False | Some t \<Rightarrow> cutoff \<le> t)"

text \<open>
  \<open>df['local_timestamp'] >= cutoff\<close> on the frame: comparing a column that carries a
  time zone with the zone-less cutoff raises TypeError; otherwise the rows that pass.
\<close>

definition since_rows :: "dataframe \<Rightarrow> int \<Rightarrow> error + nrow list" where
  "since_rows df cutoff =
     (if ts_aware df then Inl TypeError else Inr (filter (since cutoff) (df_rows df)))"

definition fraud :: "nrow \<Rightarrow> bool" where
  "fraud r = (is_fraud r = 1)"

text \<open>
  \<open>
  def get_fraud_count(hours=2):
      df = load_data()
      if df.empty: return 0
      cutoff = pd.Timestamp.now() - pd.Timedelta(hours=hours)
      mask = (df['is_fraud'] == 1) & (df['local_timestamp'] >= cutoff)
      return int(mask.sum())
  \<close>
\<close>

definition get_fraud_count :: "env \<Rightarrow> int \<Rightarrow> csv_file \<Rightarrow> error + nat" where
  "get_fraud_count e hours f =
     and_then (load_data e f)
       (\<lambda>df. if empty df then Inr 0
             else and_then (timedelta (hours * hour_ns))
               (\<lambda>td. and_then (minus_timedelta (query_now e) td)
                  (\<lambda>cutoff. and_then (since_rows df cutoff)
                     (\<lambda>recent. Inr (length (filter fraud recent))))))"

text \<open>
  \<open>round((frauds / total) * 100, 2)\<close> on the binary64 quotient of two counts: each
  operation rounds to binary64, and \<open>round\<close> on a numpy float multiplies by 100, rounds
  to the nearest integer (a tie to the even one) and divides by 100.
\<close>

definition ratio_value :: "nat \<Rightarrow> nat \<Rightarrow> rat" where
  "ratio_value frauds tot =
     (let x = fl64 (fl64 (fl64 (of_nat frauds) / fl64 (of_nat tot)) * 100);
          k = round_half_even (fl64 (x * 100))
      in fl64 (of_int k / 100))"

text \<open>
  \<open>
  def get_fraud_ratio_5min():
      df = load_data()
      if df.empty: return 0.0
      cutoff = pd.Timestamp.now() - pd.Timedelta(minutes=5)
      recent = df[df['local_timestamp'] >= cutoff]
      if recent.empty: return 0.0
      total = len(recent)
      frauds = (recent['is_fraud'] == 1).sum()
      return round((frauds / total) * 100, 2)
  \<close>
\<close>

definition get_fraud_ratio_5min :: "env \<Rightarrow> csv_file \<Rightarrow> error + rat" where
  "get_fraud_ratio_5min e f =
     and_then (load_data e f)
       (\<lambda>df. if empty df then Inr 0
             else and_then (minus_timedelta (query_now e) (5 * minute_ns))
               (\<lambda>cutoff. and_then (since_rows df cutoff)
                  (\<lambda>recent. if recent = [] then Inr 0
                     else Inr (ratio_value (length (filter fraud recent)) (length recent)))))"

text \<open>The distinct values of a column, in the order of their first appearance.\<close>

fun uniq :: "'a list \<Rightarrow> 'a list" where
  "uniq [] = []"
| "uniq (x # xs) = x # filter (\<lambda>y. y \<noteq> x) (uniq xs)"

text \<open>
  \<open>sort_values(ascending=False)\<close> on counts: descending. Up to 16 entries equal counts
  keep their order; beyond, their order is the one \<open>tie_rank\<close> gives.
\<close>

definition sort_desc :: "env \<Rightarrow> ('a \<times> nat) list \<Rightarrow> ('a \<times> nat) list" where
  "sort_desc e ps =
     (if length ps \<le> 16 then sort_key (\<lambda>p. - int (snd p)) ps
      else map snd (sort_key (\<lambda>q. (- int (snd (snd q)), fst q))
                      (zip (map (tie_rank e (map snd ps)) [0..<length ps]) ps)))"

text \<open>
  \<open>Series.value_counts()\<close>: the values met, in the order first met, each with its
  number of occurrences, then sorted by descending count.
\<close>

definition value_counts :: "env \<Rightarrow> 'a list \<Rightarrow> ('a \<times> nat) list" where
  "value_counts e xs = sort_desc e (map (\<lambda>k. (k, count_list xs k)) (uniq xs))"

text \<open>The text of a row under a column name (\<open>df[name]\<close> on one row).\<close>

definition text_of :: "nrow \<Rightarrow> string \<Rightarrow> string" where
  "text_of r c = (case map_of (cells r) c of Some s \<Rightarrow> s | None \<Rightarrow> [])"

text \<open>
  \<open>
  def get_top_categories(n=5):
      df = load_data()
      if df.empty or 'category' not in df.columns: return []
      top = df[df['is_fraud'] == 1]['category'].value_counts().head(n)
      return [{"category": k, "count": int(v)} for k, v in top.items()]
  \<close>
\<close>

definition get_top_categories :: "env \<Rightarrow> nat \<Rightarrow> csv_file \<Rightarrow> error + (string \<times> nat) list" where
  "get_top_categories e n f =
     and_then (load_data e f)
       (\<lambda>df. if empty df \<or> ''category'' \<notin> set (df_columns df) then Inr []
             else Inr (take n (value_counts e
                    (map (\<lambda>r. text_of r ''category'') (filter fraud (df_rows df))))))"

text \<open>
  \<open>pd.cut(x, bins=bins, labels=labels, right=False)\<close> on one value: the label of the
  bin \<open>[lo, hi)\<close> that holds it, None (NaN) when no bin does.
\<close>

fun cut :: "int list \<Rightarrow> string list \<Rightarrow> int \<Rightarrow> string option" where
  "cut (lo # hi # bs) (l # ls) x = (if lo \<le> x \<and> x < hi then Some l else cut (hi # bs) ls x)"
| "cut bs ls x = None"

definition bins :: "int list" where
  "bins = [0, 25, 35, 45, 55, 120]"

definition labels :: "string list" where
  "labels = [''<25'', ''25-34'', ''35-44'', ''45-54'', ''55+'']"

definition age_group :: "nrow \<Rightarrow> string option" where
  "age_group r = (case age r of None \<Rightarrow> None | Some a \<Rightarrow> cut bins labels a)"

text \<open>
  \<open>
  def get_age_distribution():
      df = load_data()
      if df.empty or 'age' not in df.columns: return []
      df_fraud = df[df['is_fraud'] == 1].copy()
      if df_fraud.empty: return []
      bins = [0, 25, 35, 45, 55, 120]
      labels = ["<25", "25-34", "35-44", "45-54", "55+"]
      df_fraud['age_group'] = pd.cut(df_fraud['age'], bins=bins, labels=labels, right=False)
      counts = df_fraud['age_group'].value_counts().reindex(labels, fill_value=0)
      return [{"age_group": g, "count": int(c)} for g, c in counts.items()]
  \<close>
  Without a \<open>dob\<close> column \<open>load_data\<close> sets \<open>df['age'] = None\<close>, a column of objects,
  and \<open>pd.cut\<close> raises TypeError when it compares None with the bin edges. With the
  column, \<open>age\<close> is numeric (NaN where \<open>dob\<close> is NaT) and \<open>pd.cut\<close> returns.
\<close>

definition get_age_distribution :: "env \<Rightarrow> csv_file \<Rightarrow> error + (string \<times> nat) list" where
  "get_age_distribution e f =
     and_then (load_data e f)
       (\<lambda>df. if empty df \<or> ''age'' \<notin> set (df_columns df) then Inr []
             else (let df_fraud = filter fraud (df_rows df)
                   in if df_fraud = [] then Inr []
                      else if ''dob'' \<notin> set (df_columns df) then Inl TypeError
                      else (let groups = map age_group df_fraud
                            in Inr (map (\<lambda>l. (l, count_list groups (Some l))) labels))))"

text \<open>\<open>notna()\<close> on a coordinate: neither None nor NaN.\<close>

definition notna :: "pyfloat option \<Rightarrow> bool" where
  "notna v = (v \<noteq> None \<and> v \<noteq> Some NaN)"

text \<open>The value a column of floats holds for a cell: None is stored as NaN.\<close>

definition float_of :: "pyfloat option \<Rightarrow> pyfloat" where
  "float_of v = (case v of None \<Rightarrow> NaN | Some x \<Rightarrow> x)"

text \<open>The order of floats, for sorting group keys: \<open>-inf\<close>, the numbers, \<open>inf\<close>.\<close>

fun float_key :: "pyfloat \<Rightarrow> int \<times> rat" where
  "float_key NInf = (- 1, 0)"
| "float_key (Finite q) = (0, q)"
| "float_key PInf = (1, 0)"
| "float_key NaN = (2, 0)"

definition group_key :: "nrow \<Rightarrow> string \<times> pyfloat \<times> pyfloat" where
  "group_key r = (text_of r ''merchant'', float_of (merch_lat_f r), float_of (merch_long_f r))"

definition key_order :: "string \<times> pyfloat \<times> pyfloat \<Rightarrow> string \<times> (int \<times> rat) \<times> (int \<times> rat)" where
  "key_order k = (fst k, float_key (fst (snd k)), float_key (snd (snd k)))"

text \<open>
  \<open>groupby([...]).size().reset_index(name='count')\<close>: one row for each distinct key,
  in ascending order of the keys (\<open>sort=True\<close> is the default), with the group's size.
\<close>

definition groupby_size ::
  "(string \<times> pyfloat \<times> pyfloat) list \<Rightarrow> ((string \<times> pyfloat \<times> pyfloat) \<times> nat) list" where
  "groupby_size ks = map (\<lambda>k. (k, count_list ks k)) (sort_key key_order (uniq ks))"

text \<open>
  \<open>
  def get_top_merchant_locations(n=5):
      df = load_data()
      if df.empty: return []
      df_fraud = df[df['is_fraud'] == 1]
      if df_fraud.empty: return []
      df_coords = df_fraud[(df_fraud['merch_lat_f'].notna()) & (df_fraud['merch_long_f'].notna())]
      if df_coords.empty: return []
      grouped = df_coords.groupby(['merchant', 'merch_lat_f', 'merch_long_f']).size().reset_index(name='count')
      top = grouped.sort_values(by='count', ascending=False).head(n)
      return [{"merchant": r['merchant'], "count": int(r['count']),
               "merch_lat": float(r['merch_lat_f']), "merch_long": float(r['merch_long_f'])}
              for _, r in top.iterrows()]
  \<close>
  \<open>groupby\<close> raises KeyError for a key that is not a column of the frame.
\<close>

definition get_top_merchant_locations ::
  "env \<Rightarrow> nat \<Rightarrow> csv_file \<Rightarrow> error + (string \<times> nat \<times> pyfloat \<times> pyfloat) list" where
  "get_top_merchant_locations e n f =
     and_then (load_data e f)
       (\<lambda>df. if empty df then Inr []
             else (let df_fraud = filter fraud (df_rows df)
                   in if df_fraud = [] then Inr []
                      else (let df_coords =
                                  filter (\<lambda>r. notna (merch_lat_f r) \<and> notna (merch_long_f r))
                                    df_fraud
                            in if df_coords = [] then Inr []
                               else if ''merchant'' \<notin> set (df_columns df)
                                 then Inl (KeyError ''merchant'')
                               else (let grouped = groupby_size (map group_key df_coords);
                                         top = take n (sort_desc e grouped)
                                     in Inr (map (\<lambda>(k, c). (fst k, c, fst (snd k), snd (snd k)))
                                               top)))))"

text \<open>
  \<open>
  def get_top_states(n=5):
      df = load_data()
      if df.empty or 'state' not in df.columns: return []
      df_fraud = df[df['is_fraud'] == 1]
      top = df_fraud['state'].value_counts().head(n)
      return [{"state": s, "count": int(c)} for s, c in top.items()]
  \<close>
\<close>

definition get_top_states :: "env \<Rightarrow> nat \<Rightarrow> csv_file \<Rightarrow> error + (string \<times> nat) list" where
  "get_top_states e n f =
     and_then (load_data e f)
       (\<lambda>df. if empty df \<or> ''state'' \<notin> set (df_columns df) then Inr []
             else Inr (take n (value_counts e
                    (map (\<lambda>r. text_of r ''state'') (filter fraud (df_rows df))))))"

subsection \<open>Notions of the specification\<close>

text \<open>The number that a run of decimal digits writes.\<close>

definition decimal :: "string \<Rightarrow> int" where
  "decimal ds = (\<Sum>j < length ds. (of_char (ds ! j) - 48) * 10 ^ (length ds - Suc j))"

text \<open>
  The window of the glossary, \<open>[now - duration, now]\<close>, and the count of frauds in it
  as the specification words it.
\<close>

definition in_window :: "int \<Rightarrow> int \<Rightarrow> int \<Rightarrow> bool" where
  "in_window now hours t = (now - hours * 3600000000000 \<le> t \<and> t \<le> now)"

definition window_count_spec :: "env \<Rightarrow> int \<Rightarrow> dataframe \<Rightarrow> nat" where
  "window_count_spec e hours df =
     length (filter (\<lambda>r. is_fraud r = 1 \<and>
                (case local_timestamp r of None \<Rightarrow> False
                 | Some t \<Rightarrow> in_window (query_now e) hours t))
             (df_rows df))"

text \<open>The fraud records of a loaded dataset.\<close>

definition fraud_rows :: "dataframe \<Rightarrow> nrow list" where
  "fraud_rows df = filter (\<lambda>r. is_fraud r = 1) (df_rows df)"

text \<open>The number of fraud records whose age is not null and lies in \<open>[lo, hi)\<close>.\<close>

definition bin_count :: "dataframe \<Rightarrow> int \<Rightarrow> int \<Rightarrow> nat" where
  "bin_count df lo hi =
     length (filter (\<lambda>r. case age r of None \<Rightarrow> False | Some a \<Rightarrow> lo \<le> a \<and> a < hi)
               (fraud_rows df))"

text \<open>An age that is not null and falls in some bin, that is in \<open>[0, 120)\<close>.\<close>

definition in_some_bin :: "int option \<Rightarrow> bool" where
  "in_some_bin a = (case a of None \<Rightarrow> False | Some x \<Rightarrow> 0 \<le> x \<and> x < 120)"

subsection \<open>Example inputs\<close>

text \<open>
  An environment for the examples. The clock reads 2026-11-03 12:00:00. The parser
  knows the zone-less instants and the instants with a UTC offset below (nanoseconds
  since the epoch); any other text is NaT, and a column that holds a text with an
  offset carries a time zone. A long digit run is stored modulo \<open>2 ^ 64\<close> as a signed
  number, and the unstable sort leaves equal counts in reverse order.
\<close>

definition known_instants :: "(string \<times> int) list" where
  "known_instants =
     [(''2026-11-03 09:00:00'', 1793696400000000000),
      (''2026-11-03 11:00:00'', 1793703600000000000),
      (''2026-11-03 11:58:00'', 1793707080000000000),
      (''2026-11-03 13:00:00'', 1793710800000000000),
      (''2006-01-01'', 1136073600000000000),
      (''1996-01-01'', 820454400000000000),
      (''1966-01-01'', - 126230400000000000)]"

definition offset_instants :: "(string \<times> int) list" where
  "offset_instants =
     [(''2026-11-03T11:00:00+00:00'', 1793703600000000000),
      (''1996-01-01T00:00:00Z'', 820454400000000000)]"

definition env0 :: env where
  "env0 =
     \<lparr>to_datetime = (\<lambda>col. Inr \<lparr>aware = list_ex (\<lambda>s. s \<in> set (map fst offset_instants)) col,
                                 instants = map_of (known_instants @ offset_instants)\<rparr>),
      long_flag = (\<lambda>col ds. Inr ((int (digits_val ds) + 2 ^ 63) mod 2 ^ 64 - 2 ^ 63)),
      tie_rank = (\<lambda>counts i. length counts - i),
      load_now = 1793707200000000000, query_now = 1793707200000000000\<rparr>"

text \<open>One fraud with merchant coordinates, in a file that has no merchant column.\<close>

definition no_merchant_file :: csv_file where
  "no_merchant_file = Parsed \<lparr>columns = [''is_fraud'', ''merch_lat'', ''merch_long''],
     rows = [[''1'', ''44.43'', ''26.10'']]\<rparr>"

text \<open>
  One transaction with a fraud flag without digits, an instant and a date of birth
  that do not parse, and a latitude that is not a number.
\<close>

definition malformed_file :: csv_file where
  "malformed_file = Parsed \<lparr>columns = [''is_fraud'', ''local_timestamp'', ''dob'', ''merch_lat'',
       ''category''],
     rows = [[''yes'', ''yesterday'', ''unknown'', ''abc'', ''travel'']]\<rparr>"

text \<open>One transaction whose date of birth is written with a UTC offset.\<close>

definition offset_dob_file :: csv_file where
  "offset_dob_file = Parsed \<lparr>columns = [''is_fraud'', ''dob''],
     rows = [[''1'', ''1996-01-01T00:00:00Z'']]\<rparr>"

text \<open>One transaction whose fraud flag reads 2.\<close>

definition flag_file :: csv_file where
  "flag_file = Parsed \<lparr>columns = [''is_fraud''], rows = [[''2'']]\<rparr>"

text \<open>What loading \<open>malformed_file\<close> returns.\<close>

definition malformed_loaded :: dataframe where
  "malformed_loaded =
     \<lparr>df_columns = [''is_fraud'', ''local_timestamp'', ''dob'', ''merch_lat'', ''category'',
        ''age'', ''merch_lat_f'', ''merch_long_f''],
      df_rows = [\<lparr>cells = [(''merch_lat'', ''abc''), (''category'', ''travel'')],
                  is_fraud = 0, local_timestamp = None, age = None,
                  merch_lat_f = None, merch_long_f = None\<rparr>],
      ts_aware = False\<rparr>"

text \<open>Three transactions whose fraud flags read \<open>n/a\<close>, \<open>ab12.5\<close> and \<open>1.0\<close>.\<close>

definition flags_frame :: raw_frame where
  "flags_frame = \<lparr>columns = [''is_fraud''], rows = [[''n/a''], [''ab12.5''], [''1.0'']]\<rparr>"

text \<open>A file without a fraud flag.\<close>

definition amounts_frame :: raw_frame where
  "amounts_frame = \<lparr>columns = [''amt''], rows = [[''7'']]\<rparr>"

text \<open>
  Six transactions: frauds one hour, two minutes and three hours before the clock
  reading, one that is not a fraud, a fraud whose instant does not parse and a fraud
  dated one hour after the clock reading.
\<close>

definition timed_file :: csv_file where
  "timed_file = Parsed \<lparr>columns = [''is_fraud'', ''local_timestamp''],
     rows = [[''1'', ''2026-11-03 11:00:00''],
             [''1'', ''2026-11-03 11:58:00''],
             [''1'', ''2026-11-03 09:00:00''],
             [''0'', ''2026-11-03 11:58:00''],
             [''1'', ''yesterday''],
             [''1'', ''2026-11-03 13:00:00'']]\<rparr>"

text \<open>One fraud dated one hour after the clock reading.\<close>

definition future_file :: csv_file where
  "future_file = Parsed \<lparr>columns = [''is_fraud'', ''local_timestamp''],
     rows = [[''1'', ''2026-11-03 13:00:00'']]\<rparr>"

text \<open>
  Frauds of ages 20, 30, 30 and 60 at the clock reading, one fraud whose date of birth
  does not parse, and a transaction that is not a fraud.
\<close>

definition ages_file :: csv_file where
  "ages_file = Parsed \<lparr>columns = [''is_fraud'', ''dob''],
     rows = [[''1'', ''2006-01-01''],
             [''1'', ''1996-01-01''],
             [''1'', ''1996-01-01''],
             [''1'', ''1966-01-01''],
             [''1'', ''unknown''],
             [''0'', ''1966-01-01'']]\<rparr>"

text \<open>A dataset without a fraud.\<close>

definition no_fraud_file :: csv_file where
  "no_fraud_file = Parsed \<lparr>columns = [''is_fraud'', ''dob''], rows = [[''0'', ''2006-01-01'']]\<rparr>"

section \<open>Properties\<close>

lemmas float_defs = safe_float_def py_float_def strip_def replace_comma_def py_isspace_def
  negative_def unsign_def is_sign_def is_e_def ci_eq_def number_ok_def number_val_def
  exponent_ok_def exponent_val_def scale10_def digits_val_def is_digit_def digit_of_def
  digit_table_def

lemmas eval_defs = load_data_def build_row_def realign_def EXPECTED_COLS_def add_col_def
  cell_def column_def fraud_flag_def extract_digits_def empty_def empty_frame_def fraud_def
  since_def env0_def known_instants_def offset_instants_def hour_ns_def minute_ns_def day_ns_def
  text_of_def and_then_def text_cells_def derived_cols_def no_column_def ages_def in_int64_def
  timedelta_def minus_timedelta_def since_rows_def

subsection \<open>A missing or unreadable file\<close>

lemma load_data_no_file: "f = Absent \<or> f = Unreadable \<Longrightarrow> load_data e f = Inr empty_frame"
  by (auto simp: load_data_def)

text \<open>
  C6. When the file is absent or \<open>read_csv\<close> rejects it, the dataset is the empty frame
  and every query returns its zero value and no error: 0 for the count, 0.0 for the
  ratio and the empty sequence for the four sequence-returning queries.
\<close>

theorem no_file_zero_values:
  "(f = Absent \<or> f = Unreadable) \<longrightarrow>
     load_data e f = Inr empty_frame
     \<and> get_fraud_count e hours f = Inr 0
     \<and> get_fraud_ratio_5min e f = Inr 0
     \<and> get_top_categories e n f = Inr []
     \<and> get_age_distribution e f = Inr []
     \<and> get_top_merchant_locations e n f = Inr []
     \<and> get_top_states e n f = Inr []"
proof (intro impI conjI)
  assume a: "f = Absent \<or> f = Unreadable"
  then show ld: "load_data e f = Inr empty_frame"
    by (rule load_data_no_file)
  have em: "empty empty_frame"
    by (simp add: empty_def empty_frame_def)
  show "get_fraud_count e hours f = Inr 0"
    using em by (simp add: get_fraud_count_def ld and_then_def)
  show "get_fraud_ratio_5min e f = Inr 0"
    using em by (simp add: get_fraud_ratio_5min_def ld and_then_def)
  show "get_top_categories e n f = Inr []"
    using em by (simp add: get_top_categories_def ld and_then_def)
  show "get_age_distribution e f = Inr []"
    using em by (simp add: get_age_distribution_def ld and_then_def)
  show "get_top_merchant_locations e n f = Inr []"
    using em by (simp add: get_top_merchant_locations_def ld and_then_def)
  show "get_top_states e n f = Inr []"
    using em by (simp add: get_top_states_def ld and_then_def)
qed

theorem no_file_zero_values_witness:
  "load_data env0 Absent = Inr empty_frame
   \<and> get_fraud_count env0 2 Absent = Inr 0
   \<and> get_fraud_ratio_5min env0 Absent = Inr 0
   \<and> get_top_categories env0 5 Absent = Inr []
   \<and> get_age_distribution env0 Absent = Inr []
   \<and> get_top_merchant_locations env0 5 Absent = Inr []
   \<and> get_top_states env0 5 Absent = Inr []"
  using no_file_zero_values [of Absent env0 2 5] by simp


subsection \<open>Queries that raise\<close>

text \<open>
  C2 at a failing input. The file has an \<open>is_fraud\<close> column and both coordinate columns
  but no \<open>merchant\<close> column, and one fraud with coordinates: the frame of coordinates
  is not empty, \<open>groupby\<close> is reached and raises KeyError, which nothing catches.
\<close>

theorem merchant_locations_key_error:
  "get_top_merchant_locations env0 5 no_merchant_file = Inl (KeyError ''merchant'')"
  by code_simp


subsection \<open>Numeric coercion\<close>

lemma ltrim_pad:
  assumes "list_all py_isspace ws"
  shows "dropWhile py_isspace (ws @ t) = dropWhile py_isspace t"
  using assms by (simp add: list_all_iff dropWhile_append2)

lemma rtrim_pad:
  assumes "list_all py_isspace ws"
  shows "rev (dropWhile py_isspace (rev (t @ ws))) = rev (dropWhile py_isspace (rev t))"
proof -
  have "dropWhile py_isspace (rev ws @ rev t) = dropWhile py_isspace (rev t)"
    by (rule dropWhile_append2) (use assms in \<open>auto simp: list_all_iff\<close>)
  then show ?thesis by simp
qed

lemma strip_pad:
  assumes l: "list_all py_isspace ws1" and r: "list_all py_isspace ws2"
  shows "strip (ws1 @ s @ ws2) = strip s"
proof (cases "list_all py_isspace s")
  case True
  then have a: "dropWhile py_isspace (s @ ws2) = []" and b: "dropWhile py_isspace s = []"
    using r by (simp_all add: list_all_iff)
  show ?thesis
    by (simp only: strip_def ltrim_pad [OF l] a b)
next
  case False
  then obtain c where "c \<in> set s" and "\<not> py_isspace c"
    by (auto simp: list_all_iff)
  then have "dropWhile py_isspace (s @ ws2) = dropWhile py_isspace s @ ws2"
    by (rule dropWhile_append1)
  then show ?thesis
    by (simp only: strip_def ltrim_pad [OF l] rtrim_pad [OF r])
qed

lemma strip_clean:
  assumes "s = [] \<or> (\<not> py_isspace (hd s) \<and> \<not> py_isspace (last s))"
  shows "strip s = s"
proof (cases s)
  case Nil
  then show ?thesis by (simp add: strip_def)
next
  case (Cons c cs)
  with assms have h: "\<not> py_isspace c" and t: "\<not> py_isspace (last s)"
    by auto
  have a: "dropWhile py_isspace s = s"
    using h Cons by simp
  have ne: "rev s \<noteq> []" using Cons by simp
  then obtain d ds where rs: "rev s = d # ds"
    by (cases "rev s") auto
  have "hd (rev s) = last s"
    using Cons by (simp add: hd_rev)
  then have "\<not> py_isspace d"
    using t rs by simp
  then have "dropWhile py_isspace (d # ds) = d # ds"
    by simp
  then have b: "dropWhile py_isspace (rev s) = rev s"
    by (simp only: rs)
  show ?thesis
    by (simp only: strip_def a b rev_rev_ident)
qed

lemma strip_trim:
  assumes "list_all py_isspace ws1" and "list_all py_isspace ws2"
    and "s = [] \<or> (\<not> py_isspace (hd s) \<and> \<not> py_isspace (last s))"
  shows "strip (ws1 @ s @ ws2) = s"
  using strip_pad [OF assms(1,2)] strip_clean [OF assms(3)] by simp

lemma safe_float_pad:
  assumes "list_all py_isspace ws1" and "list_all py_isspace ws2"
  shows "safe_float (Some (ws1 @ s @ ws2)) = safe_float (Some s)"
  by (simp add: safe_float_def strip_pad [OF assms])

text \<open>
  C9. \<open>safe_float\<close> returns None for None. For a text it trims the whitespace (twelve
  whitespace characters around a text change nothing, and \<open>strip\<close> removes exactly
  them), turns every comma into a dot and parses the result as a float; a text that
  \<open>float\<close> rejects gives None instead of the ValueError. \<open>"12,5"\<close> gives 12.5, with
  or without whitespace around it, \<open>"abc"\<close>, \<open>""\<close> and a blank text give None.
\<close>

theorem safe_float_coercion:
  "safe_float None = None
   \<and> (list_all py_isspace ws1 \<and> list_all py_isspace ws2 \<longrightarrow>
        safe_float (Some (ws1 @ s @ ws2)) = safe_float (Some s))
   \<and> (list_all py_isspace ws1 \<and> list_all py_isspace ws2
        \<and> (s = [] \<or> (\<not> py_isspace (hd s) \<and> \<not> py_isspace (last s))) \<longrightarrow>
        strip (ws1 @ s @ ws2) = s)
   \<and> length (replace_comma s) = length s
   \<and> (\<forall>i < length s. replace_comma s ! i = (if s ! i = CHR '','' then CHR ''.'' else s ! i))
   \<and> (\<forall>err. py_float (replace_comma (strip s)) = Inl err \<longrightarrow> safe_float (Some s) = None)
   \<and> (\<forall>v. py_float (replace_comma (strip s)) = Inr v \<longrightarrow> safe_float (Some s) = Some v)
   \<and> safe_float (Some ''12,5'') = Some (Finite (25 / 2))
   \<and> safe_float (Some (CHR 0x09 # CHR 0x20 # ''12,5'' @ [CHR 0x0D, CHR 0x0A])) =
       Some (Finite (25 / 2))
   \<and> safe_float (Some ''abc'') = None
   \<and> safe_float (Some '''') = None
   \<and> safe_float (Some [CHR 0x20, CHR 0x09]) = None
   \<and> safe_float (Some ''1,234,5'') = None
   \<and> safe_float (Some ''0,1'') = Some (Finite (3602879701896397 / 36028797018963968))"
proof -
  have e1: "safe_float (Some ''12,5'') = Some (Finite (25 / 2))"
    by code_simp
  have e2: "safe_float (Some (CHR 0x09 # CHR 0x20 # ''12,5'' @ [CHR 0x0D, CHR 0x0A])) =
       Some (Finite (25 / 2))"
    by code_simp
  have e3: "safe_float (Some ''abc'') = None"
    by code_simp
  have e4: "safe_float (Some '''') = None"
    by code_simp
  have e5: "safe_float (Some [CHR 0x20, CHR 0x09]) = None"
    by code_simp
  have e6: "safe_float (Some ''1,234,5'') = None"
    by code_simp
  have e7: "safe_float (Some ''0,1'') = Some (Finite (3602879701896397 / 36028797018963968))"
    by code_simp
  have r: "length (replace_comma s) = length s
     \<and> (\<forall>i < length s. replace_comma s ! i = (if s ! i = CHR '','' then CHR ''.'' else s ! i))"
    by (simp add: replace_comma_def)
  have p: "(\<forall>err. py_float (replace_comma (strip s)) = Inl err \<longrightarrow> safe_float (Some s) = None)
     \<and> (\<forall>v. py_float (replace_comma (strip s)) = Inr v \<longrightarrow> safe_float (Some s) = Some v)"
    by (simp add: safe_float_def)
  have n: "safe_float None = None"
    by (simp add: safe_float_def)
  show ?thesis
  proof (intro conjI)
    show "safe_float None = None" by (rule n)
    show "list_all py_isspace ws1 \<and> list_all py_isspace ws2 \<longrightarrow>
        safe_float (Some (ws1 @ s @ ws2)) = safe_float (Some s)"
      using safe_float_pad [of ws1 ws2 s] by blast
    show "list_all py_isspace ws1 \<and> list_all py_isspace ws2
        \<and> (s = [] \<or> (\<not> py_isspace (hd s) \<and> \<not> py_isspace (last s))) \<longrightarrow>
        strip (ws1 @ s @ ws2) = s"
      using strip_trim [of ws1 ws2 s] by blast
    show "length (replace_comma s) = length s" by (rule r [THEN conjunct1])
    show "\<forall>i < length s. replace_comma s ! i = (if s ! i = CHR '','' then CHR ''.'' else s ! i)"
      by (rule r [THEN conjunct2])
    show "\<forall>err. py_float (replace_comma (strip s)) = Inl err \<longrightarrow> safe_float (Some s) = None"
      by (rule p [THEN conjunct1])
    show "\<forall>v. py_float (replace_comma (strip s)) = Inr v \<longrightarrow> safe_float (Some s) = Some v"
      by (rule p [THEN conjunct2])
  qed (rule e1 e2 e3 e4 e5 e6 e7)+
qed

theorem safe_float_coercion_witness:
  "list_all py_isspace [CHR 0x20, CHR 0x09] \<and> list_all py_isspace [CHR 0x0A]
   \<and> \<not> py_isspace (hd ''12,5'') \<and> \<not> py_isspace (last ''12,5'')
   \<and> safe_float (Some ([CHR 0x20, CHR 0x09] @ ''12,5'' @ [CHR 0x0A])) = safe_float (Some ''12,5'')
   \<and> strip ([CHR 0x20, CHR 0x09] @ ''12,5'' @ [CHR 0x0A]) = ''12,5''
   \<and> py_float (replace_comma (strip ''abc'')) = Inl ValueError
   \<and> safe_float (Some ''abc'') = None"
proof -
  have h1: "list_all py_isspace [CHR 0x20, CHR 0x09] \<and> list_all py_isspace [CHR 0x0A]"
    by (simp add: py_isspace_def)
  have h2: "\<not> py_isspace (hd ''12,5'') \<and> \<not> py_isspace (last ''12,5'')"
    by (simp add: py_isspace_def)
  have h4: "py_float (replace_comma (strip ''abc'')) = Inl ValueError"
    by code_simp
  note t = safe_float_coercion [of "[CHR 0x20, CHR 0x09]" "[CHR 0x0A]" "''12,5''"]
  note u = safe_float_coercion [of "[]" "[]" "''abc''"]
  have a: "safe_float (Some ([CHR 0x20, CHR 0x09] @ ''12,5'' @ [CHR 0x0A])) =
       safe_float (Some ''12,5'')"
    using t [THEN conjunct2, THEN conjunct1] h1 by (rule mp)
  have b: "strip ([CHR 0x20, CHR 0x09] @ ''12,5'' @ [CHR 0x0A]) = ''12,5''"
    using t [THEN conjunct2, THEN conjunct2, THEN conjunct1] h1 h2 by (simp only: simp_thms)
  have c: "safe_float (Some ''abc'') = None"
    using u [THEN conjunct2, THEN conjunct2, THEN conjunct2, THEN conjunct2, THEN conjunct2,
        THEN conjunct1] h4 by blast
  show ?thesis
    using h1 h2 a b h4 c by (simp only: simp_thms)
qed


subsection \<open>What a returned frame holds\<close>

lemma and_then_Inr:
  "and_then m k = Inr y \<longleftrightarrow> (\<exists>v. m = Inr v \<and> k v = Inr y)"
  by (cases m) (simp_all add: and_then_def)

lemma collect_Inr:
  "collect xs = Inr ys \<Longrightarrow> length ys = length xs \<and> (\<forall>i < length xs. xs ! i = Inr (ys ! i))"
proof (induction xs arbitrary: ys)
  case Nil
  then show ?case by simp
next
  case (Cons x xs)
  from Cons.prems obtain v vs where x: "x = Inr v" and c: "collect xs = Inr vs"
    and ys: "ys = v # vs"
    by (auto simp: and_then_Inr)
  from Cons.IH [OF c] have "length vs = length xs"
    and n: "\<forall>i < length xs. xs ! i = Inr (vs ! i)"
    by auto
  then show ?case
    using x ys by (auto simp: nth_Cons split: nat.splits)
qed

lemma ages_Inr:
  assumes "ages e pc col = Inr ags"
  shows "\<not> aware pc
    \<and> ags = map (\<lambda>s. map_option (\<lambda>d. ((load_now e - d) div day_ns) div 365) (instants pc s)) col"
  using assms by (auto simp: ages_def split: if_splits)

lemma load_data_Parsed:
  assumes "load_data e (Parsed fr) = Inr df"
  shows "\<exists>flags ts ags.
      length flags = length (rows fr) \<and> length ags = length (rows fr)
      \<and> (''is_fraud'' \<in> set (realign (columns fr)) \<longrightarrow>
           collect (map (fraud_flag e (column (realign (columns fr)) (rows fr) ''is_fraud''))
                      (column (realign (columns fr)) (rows fr) ''is_fraud'')) = Inr flags)
      \<and> (''is_fraud'' \<notin> set (realign (columns fr)) \<longrightarrow> flags = map (\<lambda>r. 0) (rows fr))
      \<and> (''local_timestamp'' \<in> set (realign (columns fr)) \<longrightarrow>
           to_datetime e (column (realign (columns fr)) (rows fr) ''local_timestamp'') = Inr ts)
      \<and> (''local_timestamp'' \<notin> set (realign (columns fr)) \<longrightarrow> ts = no_column)
      \<and> (''dob'' \<in> set (realign (columns fr)) \<longrightarrow>
           (\<exists>pc. to_datetime e (column (realign (columns fr)) (rows fr) ''dob'') = Inr pc
              \<and> ages e pc (column (realign (columns fr)) (rows fr) ''dob'') = Inr ags))
      \<and> (''dob'' \<notin> set (realign (columns fr)) \<longrightarrow> ags = map (\<lambda>r. None) (rows fr))
      \<and> df_columns df =
            add_col ''merch_long_f'' (add_col ''merch_lat_f'' (add_col ''age''
              (add_col ''local_timestamp'' (add_col ''is_fraud'' (realign (columns fr))))))
      \<and> df_rows df = map (\<lambda>(r, flag, a). build_row (realign (columns fr)) ts r flag a)
                        (zip (rows fr) (zip flags ags))
      \<and> ts_aware df = aware ts"
proof -
  let ?cols = "realign (columns fr)"
  let ?rs = "rows fr"
  from assms obtain flags ts ags where
    f: "(if ''is_fraud'' \<in> set ?cols
          then collect (map (fraud_flag e (column ?cols ?rs ''is_fraud''))
                          (column ?cols ?rs ''is_fraud''))
          else Inr (map (\<lambda>r. 0) ?rs)) = Inr flags"
    and t: "(if ''local_timestamp'' \<in> set ?cols
          then to_datetime e (column ?cols ?rs ''local_timestamp'') else Inr no_column) = Inr ts"
    and a: "(if ''dob'' \<in> set ?cols
          then and_then (to_datetime e (column ?cols ?rs ''dob''))
                 (\<lambda>pc. ages e pc (column ?cols ?rs ''dob''))
          else Inr (map (\<lambda>r. None) ?rs)) = Inr ags"
    and d: "df = \<lparr>df_columns =
                   add_col ''merch_long_f'' (add_col ''merch_lat_f'' (add_col ''age''
                     (add_col ''local_timestamp'' (add_col ''is_fraud'' ?cols)))),
                 df_rows = map (\<lambda>(r, flag, a). build_row ?cols ts r flag a)
                             (zip ?rs (zip flags ags)),
                 ts_aware = aware ts\<rparr>"
    unfolding load_data_def Let_def csv_file.case and_then_Inr by blast
  have lf: "length flags = length ?rs"
    using f collect_Inr [of "map (fraud_flag e (column ?cols ?rs ''is_fraud''))
        (column ?cols ?rs ''is_fraud'')" flags]
    by (auto simp: column_def split: if_splits)
  have la: "length ags = length ?rs"
    using a by (auto simp: and_then_Inr column_def dest!: ages_Inr split: if_splits)
  show ?thesis
    apply (rule exI [of _ flags], rule exI [of _ ts], rule exI [of _ ags])
    using f t a lf la by (auto simp: d and_then_Inr split: if_splits)
qed


lemma is_digit_range: "is_digit c \<longleftrightarrow> CHR ''0'' \<le> c \<and> c \<le> CHR ''9''"
proof
  assume "is_digit c"
  then have "c \<in> set ''0123456789''"
    by (auto simp: is_digit_def digit_of_def digit_table_def split: if_splits)
  then show "CHR ''0'' \<le> c \<and> c \<le> CHR ''9''"
    by (auto simp: less_eq_char_def)
next
  assume a: "CHR ''0'' \<le> c \<and> c \<le> CHR ''9''"
  define n :: nat where "n = of_char c"
  have c: "c = char_of n" by (simp add: n_def)
  from a have "48 \<le> n \<and> n \<le> 57"
    by (simp add: less_eq_char_def n_def)
  then have "n = 48 \<or> n = 49 \<or> n = 50 \<or> n = 51 \<or> n = 52 \<or> n = 53 \<or> n = 54 \<or> n = 55
      \<or> n = 56 \<or> n = 57"
    by arith
  then have "c \<in> set ''0123456789''"
    unfolding c by (elim disjE) (simp_all add: char_of_def bit_Suc_0_iff)
  then show "is_digit c"
    by (auto simp: is_digit_def digit_of_def digit_table_def)
qed

lemma digit_of_code: "is_digit c \<Longrightarrow> digit_of c = Some (nat (of_char c - 48))"
  by (auto simp: is_digit_def digit_of_def digit_table_def split: if_splits)

lemma load_data_rows:
  assumes "load_data e (Parsed fr) = Inr df"
  shows "length (df_rows df) = length (rows fr)"
  using load_data_Parsed [OF assms] by auto

lemma load_data_row:
  assumes l: "load_data e (Parsed fr) = Inr df" and i: "i < length (rows fr)"
  shows "\<exists>ts flag a. df_rows df ! i = build_row (realign (columns fr)) ts (rows fr ! i) flag a
     \<and> (''local_timestamp'' \<in> set (realign (columns fr)) \<longrightarrow>
          to_datetime e (column (realign (columns fr)) (rows fr) ''local_timestamp'') = Inr ts)
     \<and> (''local_timestamp'' \<notin> set (realign (columns fr)) \<longrightarrow> ts = no_column)
     \<and> (''is_fraud'' \<in> set (realign (columns fr)) \<longrightarrow>
          fraud_flag e (column (realign (columns fr)) (rows fr) ''is_fraud'')
            (cell (realign (columns fr)) (rows fr ! i) ''is_fraud'') = Inr flag)
     \<and> (''is_fraud'' \<notin> set (realign (columns fr)) \<longrightarrow> flag = 0)
     \<and> (''dob'' \<notin> set (realign (columns fr)) \<longrightarrow> a = None)"
proof -
  let ?cols = "realign (columns fr)"
  from load_data_Parsed [OF l] obtain flags ts ags where
    lf: "length flags = length (rows fr)" and la: "length ags = length (rows fr)"
    and f1: "''is_fraud'' \<in> set ?cols \<longrightarrow>
           collect (map (fraud_flag e (column ?cols (rows fr) ''is_fraud''))
                      (column ?cols (rows fr) ''is_fraud'')) = Inr flags"
    and f0: "''is_fraud'' \<notin> set ?cols \<longrightarrow> flags = map (\<lambda>r. 0) (rows fr)"
    and t1: "''local_timestamp'' \<in> set ?cols \<longrightarrow>
           to_datetime e (column ?cols (rows fr) ''local_timestamp'') = Inr ts"
    and t0: "''local_timestamp'' \<notin> set ?cols \<longrightarrow> ts = no_column"
    and a0: "''dob'' \<notin> set ?cols \<longrightarrow> ags = map (\<lambda>r. None) (rows fr)"
    and r: "df_rows df = map (\<lambda>(r, flag, a). build_row ?cols ts r flag a)
                        (zip (rows fr) (zip flags ags))"
    by blast
  have row: "df_rows df ! i = build_row ?cols ts (rows fr ! i) (flags ! i) (ags ! i)"
    using i lf la by (simp add: r)
  have fl: "''is_fraud'' \<in> set ?cols \<longrightarrow>
          fraud_flag e (column ?cols (rows fr) ''is_fraud'') (cell ?cols (rows fr ! i) ''is_fraud'')
            = Inr (flags ! i)"
  proof
    assume "''is_fraud'' \<in> set ?cols"
    with f1 have "collect (map (fraud_flag e (column ?cols (rows fr) ''is_fraud''))
                      (column ?cols (rows fr) ''is_fraud'')) = Inr flags"
      by simp
    from collect_Inr [OF this] i
    have "map (fraud_flag e (column ?cols (rows fr) ''is_fraud''))
            (column ?cols (rows fr) ''is_fraud'') ! i = Inr (flags ! i)"
      by (simp add: column_def)
    then show "fraud_flag e (column ?cols (rows fr) ''is_fraud'')
            (cell ?cols (rows fr ! i) ''is_fraud'') = Inr (flags ! i)"
      using i by (simp add: column_def)
  qed
  have f0': "''is_fraud'' \<notin> set ?cols \<longrightarrow> flags ! i = 0"
    using f0 i by auto
  have a0': "''dob'' \<notin> set ?cols \<longrightarrow> ags ! i = None"
    using a0 i by auto
  show ?thesis
    using row t1 t0 fl f0' a0' by blast
qed

lemma load_data_cells:
  assumes "load_data e (Parsed fr) = Inr df"
  shows "map cells (df_rows df) = map (text_cells (realign (columns fr))) (rows fr)"
proof (rule nth_equalityI)
  show "length (map cells (df_rows df)) = length (map (text_cells (realign (columns fr))) (rows fr))"
    using load_data_rows [OF assms] by simp
next
  fix i
  assume "i < length (map cells (df_rows df))"
  then have i: "i < length (rows fr)"
    using load_data_rows [OF assms] by simp
  from load_data_row [OF assms i] obtain ts flag a where
    "df_rows df ! i = build_row (realign (columns fr)) ts (rows fr ! i) flag a"
    by blast
  then show "map cells (df_rows df) ! i = map (text_cells (realign (columns fr))) (rows fr) ! i"
    using i load_data_rows [OF assms] by (simp add: build_row_def)
qed

lemma extract_digits_none:
  assumes "list_all (\<lambda>c. \<not> is_digit c) s"
  shows "extract_digits s = None"
proof -
  have "dropWhile (\<lambda>c. \<not> is_digit c) s = []"
    using assms by (simp add: list_all_iff)
  then show ?thesis
    by (simp add: extract_digits_def)
qed

lemma extract_digits_run:
  assumes pre: "list_all (\<lambda>c. \<not> is_digit c) pre"
    and ne: "ds \<noteq> []"
    and ds: "list_all is_digit ds"
    and post: "post = [] \<or> \<not> is_digit (hd post)"
  shows "extract_digits (pre @ ds @ post) = Some ds"
proof -
  have d1: "dropWhile (\<lambda>c. \<not> is_digit c) (pre @ ds @ post) =
            dropWhile (\<lambda>c. \<not> is_digit c) (ds @ post)"
    using pre by (simp add: list_all_iff dropWhile_append2)
  obtain d ds' where dd: "ds = d # ds'"
    using ne by (cases ds) auto
  have "is_digit d"
    using ds dd by simp
  then have d2: "dropWhile (\<lambda>c. \<not> is_digit c) (ds @ post) = ds @ post"
    by (simp add: dd)
  have t0: "takeWhile is_digit post = []"
    using post by (cases post) auto
  have t1: "takeWhile is_digit (ds @ post) = ds"
    using ds t0 by (simp add: list_all_iff takeWhile_append2)
  show ?thesis
    using ne by (simp add: extract_digits_def d1 d2 t1)
qed

lemma decimal_Cons: "decimal (c # ds) = (of_char c - 48) * 10 ^ length ds + decimal ds"
  by (simp add: decimal_def sum.lessThan_Suc_shift del: sum.lessThan_Suc)

lemma digits_val_decimal_aux:
  "list_all is_digit ds \<Longrightarrow>
     int (foldl (\<lambda>a c. case digit_of c of Some d \<Rightarrow> 10 * a + d | None \<Rightarrow> a) a ds) =
       int a * 10 ^ length ds + decimal ds"
proof (induction ds arbitrary: a)
  case Nil
  then show ?case by (simp add: decimal_def)
next
  case (Cons c ds)
  then have c: "is_digit c" and r: "list_all is_digit ds"
    by simp_all
  from c have r48: "CHR ''0'' \<le> c"
    by (simp add: is_digit_range)
  then have "(48::nat) \<le> of_char c"
    by (simp add: less_eq_char_def)
  then have "int 48 \<le> int (of_char c)"
    by (simp only: of_nat_le_iff)
  then have ge: "(48::int) \<le> of_char c"
    by (simp add: of_nat_of_char)
  show ?case
    using Cons.IH [OF r, of "10 * a + nat (of_char c - 48)"] ge
    by (simp add: digit_of_code [OF c] decimal_Cons algebra_simps)
qed

lemma digits_val_decimal: "list_all is_digit ds \<Longrightarrow> int (digits_val ds) = decimal ds"
  using digits_val_decimal_aux [of ds 0] by (simp add: digits_val_def)


subsection \<open>Rows are retained\<close>

text \<open>
  C8, as the code has it. Whenever loading returns, the normalised dataset has as many
  rows as the parsed input, in the same order; each row keeps the text cells of the
  columns that are not derived, and a field that does not parse gets its default (0 for
  a fraud flag without digits, None for a coordinate that is not a float and for an
  instant that the parser gives as NaT).
\<close>

theorem load_data_retains_rows:
  "load_data e (Parsed fr) = Inr df \<longrightarrow>
     length (df_rows df) = length (rows fr)
     \<and> map cells (df_rows df) =
         map (\<lambda>r. filter (\<lambda>p. fst p \<notin> {''is_fraud'', ''local_timestamp'', ''dob'', ''age'',
                                       ''merch_lat_f'', ''merch_long_f''})
                    (zip (realign (columns fr)) r)) (rows fr)
     \<and> (\<forall>i < length (rows fr).
          merch_lat_f (df_rows df ! i) =
            (if ''merch_lat'' \<in> set (realign (columns fr))
             then safe_float (Some (cell (realign (columns fr)) (rows fr ! i) ''merch_lat''))
             else None)
          \<and> merch_long_f (df_rows df ! i) =
            (if ''merch_long'' \<in> set (realign (columns fr))
             then safe_float (Some (cell (realign (columns fr)) (rows fr ! i) ''merch_long''))
             else None)
          \<and> (''is_fraud'' \<in> set (realign (columns fr))
               \<and> list_all (\<lambda>c. \<not> is_digit c) (cell (realign (columns fr)) (rows fr ! i) ''is_fraud'')
               \<longrightarrow> is_fraud (df_rows df ! i) = 0)
          \<and> (\<forall>ts. ''local_timestamp'' \<in> set (realign (columns fr))
                \<and> to_datetime e (column (realign (columns fr)) (rows fr) ''local_timestamp'')
                    = Inr ts
                \<longrightarrow> local_timestamp (df_rows df ! i) =
                      instants ts (cell (realign (columns fr)) (rows fr ! i) ''local_timestamp'')))"
proof (intro impI conjI allI)
  assume l: "load_data e (Parsed fr) = Inr df"
  show "length (df_rows df) = length (rows fr)"
    using l by (rule load_data_rows)
  show "map cells (df_rows df) =
         map (\<lambda>r. filter (\<lambda>p. fst p \<notin> {''is_fraud'', ''local_timestamp'', ''dob'', ''age'',
                                       ''merch_lat_f'', ''merch_long_f''})
                    (zip (realign (columns fr)) r)) (rows fr)"
    using load_data_cells [OF l] by (simp add: text_cells_def [abs_def] derived_cols_def)
  fix i
  assume i: "i < length (rows fr)"
  from load_data_row [OF l i] obtain ts flag a where
    row: "df_rows df ! i = build_row (realign (columns fr)) ts (rows fr ! i) flag a"
    and t1: "''local_timestamp'' \<in> set (realign (columns fr)) \<longrightarrow>
          to_datetime e (column (realign (columns fr)) (rows fr) ''local_timestamp'') = Inr ts"
    and f1: "''is_fraud'' \<in> set (realign (columns fr)) \<longrightarrow>
          fraud_flag e (column (realign (columns fr)) (rows fr) ''is_fraud'')
            (cell (realign (columns fr)) (rows fr ! i) ''is_fraud'') = Inr flag"
    by blast
  show "merch_lat_f (df_rows df ! i) =
            (if ''merch_lat'' \<in> set (realign (columns fr))
             then safe_float (Some (cell (realign (columns fr)) (rows fr ! i) ''merch_lat''))
             else None)"
    by (simp add: row build_row_def)
  show "merch_long_f (df_rows df ! i) =
            (if ''merch_long'' \<in> set (realign (columns fr))
             then safe_float (Some (cell (realign (columns fr)) (rows fr ! i) ''merch_long''))
             else None)"
    by (simp add: row build_row_def)
  show "is_fraud (df_rows df ! i) = 0"
    if "''is_fraud'' \<in> set (realign (columns fr))
        \<and> list_all (\<lambda>c. \<not> is_digit c) (cell (realign (columns fr)) (rows fr ! i) ''is_fraud'')"
  proof -
    from that f1 have "fraud_flag e (column (realign (columns fr)) (rows fr) ''is_fraud'')
            (cell (realign (columns fr)) (rows fr ! i) ''is_fraud'') = Inr flag"
      by blast
    moreover from that
    have "extract_digits (cell (realign (columns fr)) (rows fr ! i) ''is_fraud'') = None"
      by (simp add: extract_digits_none)
    ultimately have "flag = 0"
      by (simp add: fraud_flag_def)
    then show ?thesis
      by (simp add: row build_row_def)
  qed
  show "local_timestamp (df_rows df ! i) =
          instants ts' (cell (realign (columns fr)) (rows fr ! i) ''local_timestamp'')"
    if "''local_timestamp'' \<in> set (realign (columns fr))
        \<and> to_datetime e (column (realign (columns fr)) (rows fr) ''local_timestamp'') = Inr ts'"
    for ts'
  proof -
    from that t1 have "ts' = ts" by simp
    then show ?thesis
      by (simp add: row build_row_def)
  qed
qed

theorem load_data_retains_rows_witness:
  "load_data env0 malformed_file = Inr malformed_loaded
   \<and> length (df_rows malformed_loaded) = 1
   \<and> is_fraud (df_rows malformed_loaded ! 0) = 0
   \<and> merch_lat_f (df_rows malformed_loaded ! 0) = None"
proof -
  have l: "load_data env0
      (Parsed \<lparr>columns = [''is_fraud'', ''local_timestamp'', ''dob'', ''merch_lat'', ''category''],
               rows = [[''yes'', ''yesterday'', ''unknown'', ''abc'', ''travel'']]\<rparr>)
      = Inr malformed_loaded"
    by code_simp
  note t = load_data_retains_rows [of env0
      "\<lparr>columns = [''is_fraud'', ''local_timestamp'', ''dob'', ''merch_lat'', ''category''],
        rows = [[''yes'', ''yesterday'', ''unknown'', ''abc'', ''travel'']]\<rparr>" malformed_loaded,
      THEN mp, OF l]
  have a: "length (df_rows malformed_loaded) = 1"
    using t [THEN conjunct1] by simp
  have b: "is_fraud (df_rows malformed_loaded ! 0) = 0"
    by (simp add: malformed_loaded_def)
  have c: "merch_lat_f (df_rows malformed_loaded ! 0) = None"
    by (simp add: malformed_loaded_def)
  show ?thesis
    using l a b c by (simp only: malformed_file_def simp_thms)
qed

text \<open>
  The claim C8 as it is stated fails: loading does not return a dataset for every
  parsed input. With a date of birth written with a UTC offset the subtraction from the
  zone-less clock reading raises TypeError and no row is returned.
\<close>

theorem load_data_offset_dob_counterexample:
  "load_data env0 offset_dob_file = Inl TypeError"
  by code_simp

subsection \<open>The fraud flag\<close>

text \<open>
  C3, as the code has it. The normalised \<open>is_fraud\<close> of a loaded row is an integer that
  need not be 0 or 1: it is 0 when the file has no \<open>is_fraud\<close> column or the raw text has
  no digit, and for a first run of at most 15 digits (the characters \<open>0\<close> to \<open>9\<close>) it
  is the number that the run writes in decimal. \<open>"1.0"\<close> gives 1, \<open>"yes"\<close> gives 0 and
  \<open>"0"\<close> gives 0.
\<close>

theorem is_fraud_first_digit_run:
  "(load_data e (Parsed fr) = Inr df \<and> i < length (rows fr) \<longrightarrow>
      (''is_fraud'' \<notin> set (realign (columns fr)) \<longrightarrow> is_fraud (df_rows df ! i) = 0)
      \<and> (''is_fraud'' \<in> set (realign (columns fr))
           \<and> list_all (\<lambda>c. \<not> is_digit c) (cell (realign (columns fr)) (rows fr ! i) ''is_fraud'')
           \<longrightarrow> is_fraud (df_rows df ! i) = 0)
      \<and> (''is_fraud'' \<in> set (realign (columns fr))
           \<and> cell (realign (columns fr)) (rows fr ! i) ''is_fraud'' = pre @ ds @ post
           \<and> list_all (\<lambda>c. \<not> is_digit c) pre \<and> ds \<noteq> [] \<and> list_all is_digit ds
           \<and> length ds \<le> 15 \<and> (post = [] \<or> \<not> is_digit (hd post))
           \<longrightarrow> is_fraud (df_rows df ! i) = decimal ds))
   \<and> (is_digit c \<longleftrightarrow> CHR ''0'' \<le> c \<and> c \<le> CHR ''9'')
   \<and> fraud_flag e col ''1.0'' = Inr 1
   \<and> fraud_flag e col ''yes'' = Inr 0
   \<and> fraud_flag e col ''0'' = Inr 0"
proof (intro conjI impI)
  show "is_digit c \<longleftrightarrow> CHR ''0'' \<le> c \<and> c \<le> CHR ''9''"
    by (rule is_digit_range)
  show "fraud_flag e col ''1.0'' = Inr 1"
    by (simp add: fraud_flag_def extract_digits_def float_defs)
  show "fraud_flag e col ''yes'' = Inr 0"
    by (simp add: fraud_flag_def extract_digits_def float_defs)
  show "fraud_flag e col ''0'' = Inr 0"
    by (simp add: fraud_flag_def extract_digits_def float_defs)
next
  assume "load_data e (Parsed fr) = Inr df \<and> i < length (rows fr)"
  then have l: "load_data e (Parsed fr) = Inr df" and i: "i < length (rows fr)"
    by simp_all
  from load_data_row [OF l i] obtain ts flag a where
    row: "df_rows df ! i = build_row (realign (columns fr)) ts (rows fr ! i) flag a"
    and f1: "''is_fraud'' \<in> set (realign (columns fr)) \<longrightarrow>
          fraud_flag e (column (realign (columns fr)) (rows fr) ''is_fraud'')
            (cell (realign (columns fr)) (rows fr ! i) ''is_fraud'') = Inr flag"
    and f0: "''is_fraud'' \<notin> set (realign (columns fr)) \<longrightarrow> flag = 0"
    by blast
  have isf: "is_fraud (df_rows df ! i) = flag"
    by (simp add: row build_row_def)
  show "is_fraud (df_rows df ! i) = 0" if "''is_fraud'' \<notin> set (realign (columns fr))"
    using that f0 isf by simp
  show "is_fraud (df_rows df ! i) = 0"
    if "''is_fraud'' \<in> set (realign (columns fr))
        \<and> list_all (\<lambda>c. \<not> is_digit c) (cell (realign (columns fr)) (rows fr ! i) ''is_fraud'')"
  proof -
    from that f1 have "fraud_flag e (column (realign (columns fr)) (rows fr) ''is_fraud'')
            (cell (realign (columns fr)) (rows fr ! i) ''is_fraud'') = Inr flag"
      by blast
    moreover from that
    have "extract_digits (cell (realign (columns fr)) (rows fr ! i) ''is_fraud'') = None"
      by (simp add: extract_digits_none)
    ultimately show ?thesis
      by (simp add: fraud_flag_def isf)
  qed
  show "is_fraud (df_rows df ! i) = decimal ds"
    if h: "''is_fraud'' \<in> set (realign (columns fr))
        \<and> cell (realign (columns fr)) (rows fr ! i) ''is_fraud'' = pre @ ds @ post
        \<and> list_all (\<lambda>c. \<not> is_digit c) pre \<and> ds \<noteq> [] \<and> list_all is_digit ds
        \<and> length ds \<le> 15 \<and> (post = [] \<or> \<not> is_digit (hd post))"
  proof -
    from h f1 have ff: "fraud_flag e (column (realign (columns fr)) (rows fr) ''is_fraud'')
            (pre @ ds @ post) = Inr flag"
      by simp
    from h have "extract_digits (pre @ ds @ post) = Some ds"
      by (simp add: extract_digits_run)
    with ff h have "flag = int (digits_val ds)"
      by (simp add: fraud_flag_def)
    with h show ?thesis
      by (simp add: isf digits_val_decimal)
  qed
qed

theorem is_fraud_first_digit_run_witness:
  "load_data env0 (Parsed flags_frame) =
     Inr \<lparr>df_columns = [''is_fraud'', ''local_timestamp'', ''age'', ''merch_lat_f'', ''merch_long_f''],
          df_rows = [\<lparr>cells = [], is_fraud = 0, local_timestamp = None, age = None,
                       merch_lat_f = None, merch_long_f = None\<rparr>,
                     \<lparr>cells = [], is_fraud = 12, local_timestamp = None, age = None,
                       merch_lat_f = None, merch_long_f = None\<rparr>,
                     \<lparr>cells = [], is_fraud = 1, local_timestamp = None, age = None,
                       merch_lat_f = None, merch_long_f = None\<rparr>],
          ts_aware = False\<rparr>
   \<and> list_all (\<lambda>c. \<not> is_digit c) ''n/a''
   \<and> decimal ''12'' = 12
   \<and> is_digit CHR ''7'' \<and> \<not> is_digit CHR ''x''
   \<and> fraud_flag env0 [] ''1.0'' = Inr 1"
proof -
  have l: "load_data env0 (Parsed flags_frame) =
     Inr \<lparr>df_columns = [''is_fraud'', ''local_timestamp'', ''age'', ''merch_lat_f'', ''merch_long_f''],
          df_rows = [\<lparr>cells = [], is_fraud = 0, local_timestamp = None, age = None,
                       merch_lat_f = None, merch_long_f = None\<rparr>,
                     \<lparr>cells = [], is_fraud = 12, local_timestamp = None, age = None,
                       merch_lat_f = None, merch_long_f = None\<rparr>,
                     \<lparr>cells = [], is_fraud = 1, local_timestamp = None, age = None,
                       merch_lat_f = None, merch_long_f = None\<rparr>],
          ts_aware = False\<rparr>"
    by code_simp
  have i: "(1::nat) < length (rows flags_frame)"
    by (simp add: flags_frame_def)
  have c: "''is_fraud'' \<in> set (realign (columns flags_frame))
      \<and> cell (realign (columns flags_frame)) (rows flags_frame ! 1) ''is_fraud'' = ''ab'' @ ''12'' @ ''.5''
      \<and> list_all (\<lambda>c. \<not> is_digit c) ''ab'' \<and> ''12'' \<noteq> [] \<and> list_all is_digit ''12''
      \<and> length ''12'' \<le> 15 \<and> (''.5'' = [] \<or> \<not> is_digit (hd ''.5''))"
    by (simp add: flags_frame_def realign_def EXPECTED_COLS_def cell_def float_defs)
  note t = is_fraud_first_digit_run [of env0 flags_frame _ 1 "''ab''" "''12''" "''.5''"
      "CHR ''7''" "[]"]
  from t [THEN conjunct1, THEN mp, OF conjI [OF l i], THEN conjunct2, THEN conjunct2, THEN mp, OF c]
  have d: "decimal ''12'' = 12"
    by simp
  have n: "list_all (\<lambda>c. \<not> is_digit c) ''n/a''"
    by (simp add: float_defs)
  have g: "is_digit CHR ''7'' \<and> \<not> is_digit CHR ''x''"
    by (simp add: float_defs)
  show ?thesis
    using l d n g t [THEN conjunct2, THEN conjunct2, THEN conjunct1] by (simp only: simp_thms)
qed

text \<open>
  The claim C3 as it is stated fails: the raw flag \<open>"2"\<close> is normalised to 2, which is
  neither 0 nor 1.
\<close>

theorem is_fraud_two_counterexample:
  "load_data env0 flag_file =
     Inr \<lparr>df_columns = [''is_fraud'', ''local_timestamp'', ''age'', ''merch_lat_f'', ''merch_long_f''],
          df_rows = [\<lparr>cells = [], is_fraud = 2, local_timestamp = None, age = None,
                       merch_lat_f = None, merch_long_f = None\<rparr>],
          ts_aware = False\<rparr>"
  by code_simp


subsection \<open>The recent fraud count\<close>

lemma add_col_nonempty: "add_col c cols \<noteq> []"
  by (auto simp: add_col_def)

lemma loaded_empty_rows:
  assumes "load_data e f = Inr df" and "empty df"
  shows "df_rows df = []"
proof (cases f)
  case Absent
  with assms(1) show ?thesis
    by (auto simp: load_data_def empty_frame_def)
next
  case Unreadable
  with assms(1) show ?thesis
    by (auto simp: load_data_def empty_frame_def)
next
  case (Parsed fr)
  with assms(1) have "load_data e (Parsed fr) = Inr df"
    by simp
  from load_data_Parsed [OF this] have "df_columns df =
            add_col ''merch_long_f'' (add_col ''merch_lat_f'' (add_col ''age''
              (add_col ''local_timestamp'' (add_col ''is_fraud'' (realign (columns fr))))))"
    by blast
  then have "df_columns df \<noteq> []"
    by (simp only: add_col_nonempty not_False_eq_True)
  with assms(2) show ?thesis
    by (simp add: empty_def)
qed

lemma length_filter_mono:
  "(\<And>x. x \<in> set xs \<Longrightarrow> P x \<Longrightarrow> Q x) \<Longrightarrow> length (filter P xs) \<le> length (filter Q xs)"
  by (induction xs) auto

lemma hours_fit:
  assumes "- 2562047 \<le> hours" and "hours \<le> 2562047"
  shows "in_int64 (hours * hour_ns)"
proof -
  have "hours * hour_ns \<le> 2562047 * hour_ns"
    using assms(2) by (simp add: hour_ns_def)
  moreover have "- 2562047 * hour_ns \<le> hours * hour_ns"
    using assms(1) by (simp add: hour_ns_def)
  ultimately show ?thesis
    by (simp add: in_int64_def hour_ns_def)
qed

lemma get_fraud_count_eq:
  assumes l: "load_data e f = Inr df" and z: "\<not> ts_aware df"
    and h: "in_int64 (hours * hour_ns)" and c: "in_int64 (query_now e - hours * hour_ns)"
  shows "get_fraud_count e hours f =
     Inr (length (filter (\<lambda>r. fraud r \<and> since (query_now e - hours * hour_ns) r) (df_rows df)))"
proof (cases "empty df")
  case True
  then have "df_rows df = []"
    using l by (simp add: loaded_empty_rows)
  with True show ?thesis
    by (simp add: get_fraud_count_def l and_then_def)
next
  case False
  have "filter fraud (filter (since (query_now e - hours * hour_ns)) (df_rows df)) =
        filter (\<lambda>r. fraud r \<and> since (query_now e - hours * hour_ns) r) (df_rows df)"
    by (simp add: conj_commute)
  with False show ?thesis
    using z h c
    by (simp add: get_fraud_count_def l and_then_def timedelta_def minus_timedelta_def
        since_rows_def)
qed

text \<open>
  C5, as the code has it. For a dataset that loads with zone-less instants and a window
  that pandas can represent (at most 2562047 hours, and a cutoff within the range of
  instants), the recent fraud count is the number of records with \<open>is_fraud = 1\<close> whose
  instant is not null and is at or after \<open>now - hours\<close>; there is no upper end, so a
  record dated after \<open>now\<close> counts. A record with a null instant is never counted, and it
  stays in the dataset: loading keeps every row.
\<close>

theorem fraud_count_since:
  "load_data e f = Inr df \<and> \<not> ts_aware df \<and> - 2562047 \<le> hours \<and> hours \<le> 2562047
   \<and> - 9223372036854775808 < query_now e - hours * 3600000000000
   \<and> query_now e - hours * 3600000000000 < 9223372036854775808 \<longrightarrow>
     get_fraud_count e hours f =
       Inr (length (filter (\<lambda>r. is_fraud r = 1 \<and>
                       (\<exists>t. local_timestamp r = Some t
                          \<and> query_now e - hours * 3600000000000 \<le> t))
              (df_rows df)))
     \<and> (\<forall>fr. f = Parsed fr \<longrightarrow> length (df_rows df) = length (rows fr))"
proof (intro impI conjI allI)
  assume a: "load_data e f = Inr df \<and> \<not> ts_aware df \<and> - 2562047 \<le> hours \<and> hours \<le> 2562047
   \<and> - 9223372036854775808 < query_now e - hours * 3600000000000
   \<and> query_now e - hours * 3600000000000 < 9223372036854775808"
  then have l: "load_data e f = Inr df" and z: "\<not> ts_aware df"
    by simp_all
  have h: "in_int64 (hours * hour_ns)"
    using a by (simp add: hours_fit)
  have c: "in_int64 (query_now e - hours * hour_ns)"
    using a by (simp add: in_int64_def hour_ns_def)
  have "(\<lambda>r. fraud r \<and> since (query_now e - hours * hour_ns) r) =
        (\<lambda>r. is_fraud r = 1 \<and>
           (\<exists>t. local_timestamp r = Some t \<and> query_now e - hours * 3600000000000 \<le> t))"
    by (auto simp: fraud_def since_def hour_ns_def split: option.splits)
  then show "get_fraud_count e hours f =
       Inr (length (filter (\<lambda>r. is_fraud r = 1 \<and>
                       (\<exists>t. local_timestamp r = Some t
                          \<and> query_now e - hours * 3600000000000 \<le> t))
              (df_rows df)))"
    using get_fraud_count_eq [OF l z h c] by simp
  fix fr
  assume "f = Parsed fr"
  with l show "length (df_rows df) = length (rows fr)"
    by (simp add: load_data_rows)
qed

theorem fraud_count_since_witness:
  "\<not> isl (load_data env0 timed_file)
   \<and> \<not> ts_aware (projr (load_data env0 timed_file))
   \<and> get_fraud_count env0 2 timed_file =
       Inr (length (filter (\<lambda>r. is_fraud r = 1 \<and>
                       (\<exists>t. local_timestamp r = Some t
                          \<and> query_now env0 - 2 * 3600000000000 \<le> t))
              (df_rows (projr (load_data env0 timed_file)))))
   \<and> get_fraud_count env0 2 timed_file = Inr 3"
proof -
  have a: "\<not> isl (load_data env0 timed_file)"
    by code_simp
  then have l: "load_data env0 timed_file = Inr (projr (load_data env0 timed_file))"
    by simp
  have z: "\<not> ts_aware (projr (load_data env0 timed_file))"
    by code_simp
  have b: "- 9223372036854775808 < query_now env0 - 2 * 3600000000000
      \<and> query_now env0 - 2 * 3600000000000 < 9223372036854775808"
    by (simp add: env0_def)
  have c: "get_fraud_count env0 2 timed_file = Inr 3"
    by code_simp
  have d: "get_fraud_count env0 2 timed_file =
       Inr (length (filter (\<lambda>r. is_fraud r = 1 \<and>
                       (\<exists>t. local_timestamp r = Some t
                          \<and> query_now env0 - 2 * 3600000000000 \<le> t))
              (df_rows (projr (load_data env0 timed_file)))))"
    using fraud_count_since [of env0 timed_file "projr (load_data env0 timed_file)" 2] l z b
    by simp
  show ?thesis
    using a z c d by (simp only: simp_thms)
qed

text \<open>
  The claim C5 as it is stated fails: a fraud dated one hour after the clock reading
  lies outside \<open>[now - 2h, now]\<close>, and the query counts it.
\<close>

theorem fraud_count_window_counterexample:
  "get_fraud_count env0 2 future_file = Inr 1
   \<and> and_then (load_data env0 future_file) (\<lambda>df. Inr (window_count_spec env0 2 df)) = Inr 0"
  by code_simp

text \<open>
  C10, as the code has it. For a dataset that loads with zone-less instants, a clock
  after the epoch and windows that pandas can represent (at most 2562047 hours), the
  recent fraud count does not decrease when the window grows: for \<open>0 \<le> h1 \<le> h2\<close> both
  calls return, and the count for \<open>h1\<close> is at most the count for \<open>h2\<close>.
\<close>

theorem fraud_count_monotone:
  "load_data e f = Inr df \<and> \<not> ts_aware df \<and> 0 \<le> h1 \<and> h1 \<le> h2 \<and> h2 \<le> 2562047
   \<and> 0 \<le> query_now e \<and> query_now e < 9223372036854775808 \<longrightarrow>
     (\<exists>c1 c2. get_fraud_count e h1 f = Inr c1 \<and> get_fraud_count e h2 f = Inr c2 \<and> c1 \<le> c2)"
proof
  assume a: "load_data e f = Inr df \<and> \<not> ts_aware df \<and> 0 \<le> h1 \<and> h1 \<le> h2 \<and> h2 \<le> 2562047
   \<and> 0 \<le> query_now e \<and> query_now e < 9223372036854775808"
  then have l: "load_data e f = Inr df" and z: "\<not> ts_aware df"
    by simp_all
  have f1: "in_int64 (h1 * hour_ns)" and f2: "in_int64 (h2 * hour_ns)"
    using a by (simp_all add: hours_fit)
  have le: "h1 * hour_ns \<le> h2 * hour_ns"
    using a by (simp add: hour_ns_def)
  have p1: "0 \<le> h1 * hour_ns"
    using a by (simp add: hour_ns_def)
  have p2: "0 \<le> h2 * hour_ns"
    using p1 le by simp
  have c2: "in_int64 (query_now e - h2 * hour_ns)"
    using a f2 p2 by (simp add: in_int64_def)
  have c1: "in_int64 (query_now e - h1 * hour_ns)"
    using a le p1 c2 by (simp add: in_int64_def)
  have "length (filter (\<lambda>r. fraud r \<and> since (query_now e - h1 * hour_ns) r) (df_rows df))
        \<le> length (filter (\<lambda>r. fraud r \<and> since (query_now e - h2 * hour_ns) r) (df_rows df))"
  proof (rule length_filter_mono)
    fix r
    assume "fraud r \<and> since (query_now e - h1 * hour_ns) r"
    with le show "fraud r \<and> since (query_now e - h2 * hour_ns) r"
      by (auto simp: since_def split: option.splits)
  qed
  then show "\<exists>c1 c2. get_fraud_count e h1 f = Inr c1 \<and> get_fraud_count e h2 f = Inr c2
      \<and> c1 \<le> c2"
    by (simp add: get_fraud_count_eq [OF l z f1 c1] get_fraud_count_eq [OF l z f2 c2])
qed

theorem fraud_count_monotone_witness:
  "\<not> isl (load_data env0 timed_file)
   \<and> \<not> ts_aware (projr (load_data env0 timed_file))
   \<and> (\<exists>c1 c2. get_fraud_count env0 1 timed_file = Inr c1
        \<and> get_fraud_count env0 3 timed_file = Inr c2 \<and> c1 \<le> c2)
   \<and> get_fraud_count env0 1 timed_file = Inr 3
   \<and> get_fraud_count env0 3 timed_file = Inr 4"
proof -
  have a: "\<not> isl (load_data env0 timed_file)"
    by code_simp
  then have l: "load_data env0 timed_file = Inr (projr (load_data env0 timed_file))"
    by simp
  have z: "\<not> ts_aware (projr (load_data env0 timed_file))"
    by code_simp
  have b: "0 \<le> query_now env0 \<and> query_now env0 < 9223372036854775808"
    by (simp add: env0_def)
  have c: "get_fraud_count env0 1 timed_file = Inr 3"
    by code_simp
  have d: "get_fraud_count env0 3 timed_file = Inr 4"
    by code_simp
  have m: "\<exists>c1 c2. get_fraud_count env0 1 timed_file = Inr c1
        \<and> get_fraud_count env0 3 timed_file = Inr c2 \<and> c1 \<le> c2"
    using fraud_count_monotone [of env0 timed_file "projr (load_data env0 timed_file)" 1 3] l z b
    by simp
  show ?thesis
    using a z m c d by (simp only: simp_thms)
qed

text \<open>
  The claim C10 as it is stated fails: a window of 2562048 hours is longer than the
  longest duration pandas holds, and the query raises instead of returning a count;
  2562047 hours is the longest window that returns.
\<close>

theorem fraud_count_long_window_counterexample:
  "get_fraud_count env0 2562048 timed_file = Inl OutOfBoundsTimedelta
   \<and> get_fraud_count env0 2562047 timed_file = Inr 4"
  by code_simp


subsection \<open>The age distribution\<close>

lemma in_add_col: "x \<in> set (add_col c cols) \<longleftrightarrow> x = c \<or> x \<in> set cols"
  by (auto simp: add_col_def)

lemma age_in_columns:
  assumes "load_data e f = Inr df" and "df_rows df \<noteq> []"
  shows "''age'' \<in> set (df_columns df)"
proof (cases f)
  case Absent
  with assms show ?thesis
    by (auto simp: load_data_def empty_frame_def)
next
  case Unreadable
  with assms show ?thesis
    by (auto simp: load_data_def empty_frame_def)
next
  case (Parsed fr)
  with assms(1) have "load_data e (Parsed fr) = Inr df"
    by simp
  from load_data_Parsed [OF this] have "df_columns df =
            add_col ''merch_long_f'' (add_col ''merch_lat_f'' (add_col ''age''
              (add_col ''local_timestamp'' (add_col ''is_fraud'' (realign (columns fr))))))"
    by blast
  then show ?thesis
    by (simp add: in_add_col)
qed

lemma fraud_rows_eq: "fraud_rows df = filter fraud (df_rows df)"
  by (simp add: fraud_rows_def fraud_def [abs_def])

lemma count_list_map_filter:
  "count_list (map g xs) y = length (filter (\<lambda>x. g x = y) xs)"
  by (induction xs) auto

lemma age_group_iff:
  "age_group r = Some l \<longleftrightarrow>
     (case age r of None \<Rightarrow> False
      | Some a \<Rightarrow> (l = ''<25'' \<and> 0 \<le> a \<and> a < 25) \<or> (l = ''25-34'' \<and> 25 \<le> a \<and> a < 35)
          \<or> (l = ''35-44'' \<and> 35 \<le> a \<and> a < 45) \<or> (l = ''45-54'' \<and> 45 \<le> a \<and> a < 55)
          \<or> (l = ''55+'' \<and> 55 \<le> a \<and> a < 120))"
  by (auto simp: age_group_def bins_def labels_def split: option.splits)

lemma group_count:
  assumes "\<And>r. age_group r = Some l \<longleftrightarrow>
             (case age r of None \<Rightarrow> False | Some a \<Rightarrow> lo \<le> a \<and> a < hi)"
  shows "count_list (map age_group (fraud_rows df)) (Some l) = bin_count df lo hi"
  by (simp add: count_list_map_filter bin_count_def assms)

lemma bins_partition:
  "length (filter (\<lambda>r. case age r of None \<Rightarrow> False | Some a \<Rightarrow> 0 \<le> a \<and> a < 25) rs)
   + length (filter (\<lambda>r. case age r of None \<Rightarrow> False | Some a \<Rightarrow> 25 \<le> a \<and> a < 35) rs)
   + length (filter (\<lambda>r. case age r of None \<Rightarrow> False | Some a \<Rightarrow> 35 \<le> a \<and> a < 45) rs)
   + length (filter (\<lambda>r. case age r of None \<Rightarrow> False | Some a \<Rightarrow> 45 \<le> a \<and> a < 55) rs)
   + length (filter (\<lambda>r. case age r of None \<Rightarrow> False | Some a \<Rightarrow> 55 \<le> a \<and> a < 120) rs)
   = length (filter (\<lambda>r. in_some_bin (age r)) rs)"
  by (induction rs) (auto simp: in_some_bin_def split: option.splits)

text \<open>
  C1, as the code has it. For a dataset that loads: without a fraud record (an empty
  dataset included) the age distribution is the empty sequence; with at least one fraud
  record and a \<open>dob\<close> column it is exactly the five entries \<open><25, 25-34, 35-44, 45-54,
  55+\<close> in this order, each with the number of fraud records whose age lies in its bin
  (0 when there is none), and the counts sum to the number of fraud records whose age
  is not null and falls in some bin.
\<close>

theorem age_distribution_entries:
  "load_data e f = Inr df \<longrightarrow>
     (fraud_rows df = [] \<longrightarrow> get_age_distribution e f = Inr [])
     \<and> (fraud_rows df \<noteq> [] \<and> ''dob'' \<in> set (df_columns df) \<longrightarrow>
          get_age_distribution e f =
            Inr [(''<25'', bin_count df 0 25), (''25-34'', bin_count df 25 35),
                 (''35-44'', bin_count df 35 45), (''45-54'', bin_count df 45 55),
                 (''55+'', bin_count df 55 120)]
          \<and> bin_count df 0 25 + bin_count df 25 35 + bin_count df 35 45
              + bin_count df 45 55 + bin_count df 55 120
            = length (filter (\<lambda>r. in_some_bin (age r)) (fraud_rows df)))"
proof (intro conjI impI)
  assume l: "load_data e f = Inr df" and "fraud_rows df = []"
  then show "get_age_distribution e f = Inr []"
    by (simp add: get_age_distribution_def Let_def fraud_rows_eq and_then_def)
next
  assume l: "load_data e f = Inr df"
    and a: "fraud_rows df \<noteq> [] \<and> ''dob'' \<in> set (df_columns df)"
  then have rows_ne: "df_rows df \<noteq> []"
    by (auto simp: fraud_rows_eq)
  have cols_ne: "df_columns df \<noteq> []"
    using a by auto
  have not_empty: "\<not> empty df"
    using rows_ne cols_ne by (simp add: empty_def)
  have age_col: "''age'' \<in> set (df_columns df)"
    using l rows_ne by (rule age_in_columns)
  have res: "get_age_distribution e f =
          Inr (map (\<lambda>l. (l, count_list (map age_group (fraud_rows df)) (Some l))) labels)"
    using a not_empty age_col
    by (simp add: get_age_distribution_def Let_def fraud_rows_eq l and_then_def)
  have c1: "count_list (map age_group (fraud_rows df)) (Some ''<25'') = bin_count df 0 25"
    by (rule group_count) (simp add: age_group_iff split: option.splits)
  have c2: "count_list (map age_group (fraud_rows df)) (Some ''25-34'') = bin_count df 25 35"
    by (rule group_count) (simp add: age_group_iff split: option.splits)
  have c3: "count_list (map age_group (fraud_rows df)) (Some ''35-44'') = bin_count df 35 45"
    by (rule group_count) (simp add: age_group_iff split: option.splits)
  have c4: "count_list (map age_group (fraud_rows df)) (Some ''45-54'') = bin_count df 45 55"
    by (rule group_count) (simp add: age_group_iff split: option.splits)
  have c5: "count_list (map age_group (fraud_rows df)) (Some ''55+'') = bin_count df 55 120"
    by (rule group_count) (simp add: age_group_iff split: option.splits)
  show "get_age_distribution e f =
          Inr [(''<25'', bin_count df 0 25), (''25-34'', bin_count df 25 35),
               (''35-44'', bin_count df 35 45), (''45-54'', bin_count df 45 55),
               (''55+'', bin_count df 55 120)]"
    by (simp add: res labels_def c1 c2 c3 c4 c5)
  show "bin_count df 0 25 + bin_count df 25 35 + bin_count df 35 45
            + bin_count df 45 55 + bin_count df 55 120
          = length (filter (\<lambda>r. in_some_bin (age r)) (fraud_rows df))"
    unfolding bin_count_def by (rule bins_partition)
qed

theorem age_distribution_entries_witness:
  "\<not> isl (load_data env0 ages_file)
   \<and> fraud_rows (projr (load_data env0 ages_file)) \<noteq> []
   \<and> ''dob'' \<in> set (df_columns (projr (load_data env0 ages_file)))
   \<and> get_age_distribution env0 ages_file =
       Inr [(''<25'', bin_count (projr (load_data env0 ages_file)) 0 25),
            (''25-34'', bin_count (projr (load_data env0 ages_file)) 25 35),
            (''35-44'', bin_count (projr (load_data env0 ages_file)) 35 45),
            (''45-54'', bin_count (projr (load_data env0 ages_file)) 45 55),
            (''55+'', bin_count (projr (load_data env0 ages_file)) 55 120)]
   \<and> get_age_distribution env0 ages_file =
       Inr [(''<25'', 1), (''25-34'', 2), (''35-44'', 0), (''45-54'', 0), (''55+'', 1)]
   \<and> map age (fraud_rows (projr (load_data env0 ages_file))) =
       [Some 20, Some 30, Some 30, Some 60, None]
   \<and> fraud_rows (projr (load_data env0 Absent)) = []
   \<and> get_age_distribution env0 Absent = Inr []"
proof -
  have a: "\<not> isl (load_data env0 ages_file)"
    by code_simp
  then have l: "load_data env0 ages_file = Inr (projr (load_data env0 ages_file))"
    by simp
  have h0: "map age (fraud_rows (projr (load_data env0 ages_file))) =
       [Some 20, Some 30, Some 30, Some 60, None]"
    by code_simp
  then have h1: "fraud_rows (projr (load_data env0 ages_file)) \<noteq> []"
    by auto
  have h2: "''dob'' \<in> set (df_columns (projr (load_data env0 ages_file)))"
    by code_simp
  have v: "get_age_distribution env0 ages_file =
       Inr [(''<25'', 1), (''25-34'', 2), (''35-44'', 0), (''45-54'', 0), (''55+'', 1)]"
    by code_simp
  have l0: "load_data env0 Absent = Inr (projr (load_data env0 Absent))"
    by (simp add: load_data_def)
  have h3: "fraud_rows (projr (load_data env0 Absent)) = []"
    by (simp add: load_data_def fraud_rows_def empty_frame_def)
  note t = age_distribution_entries [of env0 ages_file "projr (load_data env0 ages_file)",
      THEN mp, OF l]
  note u = age_distribution_entries [of env0 Absent "projr (load_data env0 Absent)",
      THEN mp, OF l0]
  have b: "get_age_distribution env0 ages_file =
       Inr [(''<25'', bin_count (projr (load_data env0 ages_file)) 0 25),
            (''25-34'', bin_count (projr (load_data env0 ages_file)) 25 35),
            (''35-44'', bin_count (projr (load_data env0 ages_file)) 35 45),
            (''45-54'', bin_count (projr (load_data env0 ages_file)) 45 55),
            (''55+'', bin_count (projr (load_data env0 ages_file)) 55 120)]"
    using t [THEN conjunct2, THEN mp, OF conjI [OF h1 h2], THEN conjunct1] .
  have c: "get_age_distribution env0 Absent = Inr []"
    using u [THEN conjunct1, THEN mp, OF h3] .
  show ?thesis
    using a h1 h2 b v h0 h3 c by (simp only: simp_thms)
qed

text \<open>
  The claim C1 as it is stated fails: for a missing file, and for a dataset without a
  fraud record, the query returns the empty sequence and not five entries.
\<close>

theorem age_distribution_empty_counterexample:
  "get_age_distribution env0 Absent = Inr [] \<and> get_age_distribution env0 no_fraud_file = Inr []"
  by code_simp

end
